theory Spec2Isabelle
  imports Complex_Main
begin

section \<open>Scale types and the scale selector (ScaleSelector.tsx)\<close>

text \<open>
  \<^verbatim>\<open>ScaleType\<close> is the two-valued enum of \<^verbatim>\<open>charts/core/ChartConstants\<close>
  (\<^verbatim>\<open>ScaleType.linear\<close>, \<^verbatim>\<open>ScaleType.log\<close>).
\<close>

datatype ScaleType = Linear | Log

text \<open>
  \<^verbatim>\<open>Array.prototype.indexOf\<close>: the index of the first element equal to the
  argument, \<open>-1\<close> when there is none.
\<close>

fun indexOf :: "'a list \<Rightarrow> 'a \<Rightarrow> int" where
  "indexOf [] v = - 1"
| "indexOf (x # xs) v =
     (if x = v then 0
      else (let r = indexOf xs v in if r < 0 then - 1 else r + 1))"

text \<open>
  A JavaScript array read \<^verbatim>\<open>xs[k]\<close>: \<^verbatim>\<open>undefined\<close> (here \<open>None\<close>) outside
  the array.
\<close>

definition array_get :: "'a list \<Rightarrow> int \<Rightarrow> 'a option" where
  "array_get xs k = (if 0 \<le> k \<and> k < int (length xs) then Some (xs ! nat k) else None)"

text \<open>
  \<^verbatim>\<open>
  let nextScaleTypeIndex = scaleTypeOptions.indexOf(scaleType) + 1
  if (nextScaleTypeIndex >= scaleTypeOptions.length)
      nextScaleTypeIndex = 0
  const newValue = scaleTypeOptions[nextScaleTypeIndex]
  \<close>
\<close>

definition nextScaleTypeIndex :: "ScaleType \<Rightarrow> ScaleType list \<Rightarrow> int" where
  "nextScaleTypeIndex scaleType scaleTypeOptions =
     (let n = indexOf scaleTypeOptions scaleType + 1
      in if n \<ge> int (length scaleTypeOptions) then 0 else n)"

definition newValue :: "ScaleType \<Rightarrow> ScaleType list \<Rightarrow> ScaleType option" where
  "newValue scaleType scaleTypeOptions =
     array_get scaleTypeOptions (nextScaleTypeIndex scaleType scaleTypeOptions)"

text \<open>
  The props of the component, as far as \<^verbatim>\<open>onClick\<close> reads them: the observable
  \<^verbatim>\<open>scaleTypeConfig\<close> and whether each of the two optional callbacks is supplied.
\<close>

record ScaleTypeConfig =
  cfg_scaleType :: ScaleType
  cfg_scaleTypeOptions :: "ScaleType list"
  cfg_has_updateChartScaleType :: bool

record ScaleSelectorOptions =
  scaleTypeConfig :: ScaleTypeConfig
  has_onScaleTypeChange :: bool

text \<open>
  What a click does: it calls one of the callbacks with the new value, or, when neither is
  supplied, assigns the new value to \<^verbatim>\<open>scaleTypeConfig.scaleType\<close>. The new value
  is \<^verbatim>\<open>undefined\<close> (\<open>None\<close>) when the option list is empty.
\<close>

datatype click_effect =
    Called_onScaleTypeChange "ScaleType option"
  | Called_updateChartScaleType "ScaleType option"
  | Assigned_scaleType "ScaleType option"

definition onClick :: "ScaleSelectorOptions \<Rightarrow> click_effect" where
  "onClick props =
     (let cfg = scaleTypeConfig props;
          v = newValue (cfg_scaleType cfg) (cfg_scaleTypeOptions cfg)
      in if has_onScaleTypeChange props then Called_onScaleTypeChange v
         else if cfg_has_updateChartScaleType cfg then Called_updateChartScaleType v
         else Assigned_scaleType v)"

text \<open>The value a click selects, whichever of the three ways delivers it.\<close>

fun selected :: "click_effect \<Rightarrow> ScaleType option" where
  "selected (Called_onScaleTypeChange v) = v"
| "selected (Called_updateChartScaleType v) = v"
| "selected (Assigned_scaleType v) = v"

text \<open>
  The direct-mutation fallback as a state transformer on the configuration: the click's
  assignment carried out (an \<^verbatim>\<open>undefined\<close> new value cannot be stored in the
  model's \<open>ScaleType\<close> field; it only arises for an empty option list, where the
  configuration is left as it is).
\<close>

definition click :: "ScaleTypeConfig \<Rightarrow> ScaleTypeConfig" where
  "click cfg =
     (case onClick \<lparr>scaleTypeConfig = cfg, has_onScaleTypeChange = False\<rparr> of
        Assigned_scaleType (Some v) \<Rightarrow> cfg\<lparr>cfg_scaleType := v\<rparr>
      | _ \<Rightarrow> cfg)"

subsection \<open>Facts about \<open>indexOf\<close>\<close>

lemma indexOf_ge: "- 1 \<le> indexOf xs v"
  by (induction xs) (auto simp: Let_def)

lemma indexOf_first:
  "i < length xs \<Longrightarrow> xs ! i = v \<Longrightarrow> (\<forall>k<i. xs ! k \<noteq> v) \<Longrightarrow> indexOf xs v = int i"
proof (induction xs arbitrary: i)
  case Nil
  then show ?case by simp
next
  case (Cons x xs)
  show ?case
  proof (cases i)
    case 0
    with Cons.prems show ?thesis by simp
  next
    case (Suc m)
    from Cons.prems Suc have hd: "x \<noteq> v" by auto
    have m: "m < length xs" "xs ! m = v" using Cons.prems Suc by auto
    have "\<forall>k<m. xs ! k \<noteq> v"
    proof (intro allI impI)
      fix k assume "k < m"
      then have "Suc k < i" using Suc by simp
      with Cons.prems(3) have "(x # xs) ! Suc k \<noteq> v" by blast
      then show "xs ! k \<noteq> v" by simp
    qed
    with Cons.IH m have "indexOf xs v = int m" by blast
    with hd Suc show ?thesis by (simp add: Let_def)
  qed
qed

text \<open>
  C8 (as amended). For a non-empty option list in which the current scale type first
  occurs at index \<open>i\<close> (the index \<^verbatim>\<open>indexOf\<close> finds), a click selects
  \<open>scaleTypeOptions[(i + 1) mod length]\<close>, whichever callback delivers the value; on the
  options \<open>[Linear, Log]\<close> a click from \<open>Linear\<close> yields \<open>Log\<close> and a second click
  returns to \<open>Linear\<close>.
\<close>

theorem onClick_selects_next:
  assumes "i < length opts" and "opts ! i = cur" and "\<forall>k<i. opts ! k \<noteq> cur"
    and "cfg_scaleType (scaleTypeConfig props) = cur"
    and "cfg_scaleTypeOptions (scaleTypeConfig props) = opts"
  shows "selected (onClick props) = Some (opts ! ((i + 1) mod length opts))
       \<and> cfg_scaleType (click \<lparr>cfg_scaleType = Linear, cfg_scaleTypeOptions = [Linear, Log],
            cfg_has_updateChartScaleType = False\<rparr>) = Log
       \<and> cfg_scaleType (click (click \<lparr>cfg_scaleType = Linear,
            cfg_scaleTypeOptions = [Linear, Log],
            cfg_has_updateChartScaleType = False\<rparr>)) = Linear"
proof -
  have idx: "indexOf opts cur = int i"
    using assms(1-3) by (rule indexOf_first)
  have nv: "newValue cur opts = Some (opts ! ((i + 1) mod length opts))"
  proof (cases "i + 1 < length opts")
    case True
    then show ?thesis
      using idx by (simp add: newValue_def nextScaleTypeIndex_def array_get_def Let_def nat_add_distrib)
  next
    case False
    with assms(1) have "i + 1 = length opts" by simp
    moreover from assms(1) have "opts \<noteq> []" by auto
    ultimately show ?thesis
      using idx by (simp add: newValue_def nextScaleTypeIndex_def array_get_def Let_def)
  qed
  have sel: "selected (onClick props) = newValue cur opts"
    using assms(4,5) by (simp add: onClick_def Let_def)
  have c1: "click \<lparr>cfg_scaleType = Linear, cfg_scaleTypeOptions = [Linear, Log],
            cfg_has_updateChartScaleType = False\<rparr>
        = \<lparr>cfg_scaleType = Log, cfg_scaleTypeOptions = [Linear, Log],
            cfg_has_updateChartScaleType = False\<rparr>"
    by (simp add: click_def onClick_def newValue_def nextScaleTypeIndex_def array_get_def Let_def)
  have c2: "click \<lparr>cfg_scaleType = Log, cfg_scaleTypeOptions = [Linear, Log],
            cfg_has_updateChartScaleType = False\<rparr>
        = \<lparr>cfg_scaleType = Linear, cfg_scaleTypeOptions = [Linear, Log],
            cfg_has_updateChartScaleType = False\<rparr>"
    by (simp add: click_def onClick_def newValue_def nextScaleTypeIndex_def array_get_def Let_def)
  show ?thesis using sel nv c1 c2 by simp
qed

theorem onClick_selects_next_witness:
  "selected (onClick \<lparr>scaleTypeConfig = \<lparr>cfg_scaleType = Log,
       cfg_scaleTypeOptions = [Linear, Log], cfg_has_updateChartScaleType = True\<rparr>,
       has_onScaleTypeChange = False\<rparr>) = Some Linear"
  using onClick_selects_next [of 1 "[Linear, Log]" Log
      "\<lparr>scaleTypeConfig = \<lparr>cfg_scaleType = Log,
       cfg_scaleTypeOptions = [Linear, Log], cfg_has_updateChartScaleType = True\<rparr>,
       has_onScaleTypeChange = False\<rparr>"]
  by simp

text \<open>
  The claim as first stated lets \<open>i\<close> be any index holding the current type. With a
  repeated entry that fails: on \<open>[Linear, Log, Linear]\<close> with current type \<open>Linear\<close>
  (which the list holds at index 2) a click selects \<open>Log\<close>, the successor of the first
  occurrence, and not the entry at index \<open>(2 + 1) mod 3 = 0\<close>.
\<close>

theorem onClick_repeated_entry_counterexample:
  "[Linear, Log, Linear] ! 2 = Linear
   \<and> selected (onClick \<lparr>scaleTypeConfig = \<lparr>cfg_scaleType = Linear,
       cfg_scaleTypeOptions = [Linear, Log, Linear], cfg_has_updateChartScaleType = False\<rparr>,
       has_onScaleTypeChange = False\<rparr>) = Some Log
   \<and> Some Log \<noteq> Some ([Linear, Log, Linear] ! ((2 + 1) mod length [Linear, Log, Linear]))"
  by (simp add: onClick_def newValue_def nextScaleTypeIndex_def array_get_def Let_def)

section \<open>Axis configuration (charts/axis/AxisSpec.ts)\<close>

subsection \<open>JavaScript numbers, as far as the configuration compares them\<close>

text \<open>
  The configuration only compares numbers and takes minima and maxima, but it does so with
  the infinities as sentinels, and a \<^verbatim>\<open>number\<close> may be \<^verbatim>\<open>NaN\<close>. Finite values
  are modelled as reals (rounding plays no part in a comparison).
\<close>

datatype number = NaN | NegInfinity | Finite real | Infinity

text \<open>\<^verbatim>\<open>a < b\<close> and \<^verbatim>\<open>a <= b\<close>: every comparison with \<^verbatim>\<open>NaN\<close> is false.\<close>

fun js_lt :: "number \<Rightarrow> number \<Rightarrow> bool" where
  "js_lt (Finite a) (Finite b) = (a < b)"
| "js_lt (Finite a) Infinity = True"
| "js_lt NegInfinity (Finite b) = True"
| "js_lt NegInfinity Infinity = True"
| "js_lt _ _ = False"

fun js_le :: "number \<Rightarrow> number \<Rightarrow> bool" where
  "js_le (Finite a) (Finite b) = (a \<le> b)"
| "js_le (Finite a) Infinity = True"
| "js_le NegInfinity (Finite b) = True"
| "js_le NegInfinity Infinity = True"
| "js_le NegInfinity NegInfinity = True"
| "js_le Infinity Infinity = True"
| "js_le _ _ = False"

definition js_gt :: "number \<Rightarrow> number \<Rightarrow> bool" where
  "js_gt a b = js_lt b a"

definition js_ge :: "number \<Rightarrow> number \<Rightarrow> bool" where
  "js_ge a b = js_le b a"

text \<open>\<^verbatim>\<open>Math.min\<close> and \<^verbatim>\<open>Math.max\<close> of two arguments: \<^verbatim>\<open>NaN\<close> if either is.\<close>

definition Math_min :: "number \<Rightarrow> number \<Rightarrow> number" where
  "Math_min a b = (if a = NaN \<or> b = NaN then NaN else if js_lt b a then b else a)"

definition Math_max :: "number \<Rightarrow> number \<Rightarrow> number" where
  "Math_max a b = (if a = NaN \<or> b = NaN then NaN else if js_lt a b then b else a)"

text \<open>
  \<^verbatim>\<open>v || 0\<close> on an optional number: \<^verbatim>\<open>undefined\<close>, \<^verbatim>\<open>NaN\<close> and zero are
  falsy. \<^verbatim>\<open>v ?? d\<close>: only \<^verbatim>\<open>undefined\<close> is nullish.
\<close>

definition or_zero :: "number option \<Rightarrow> number" where
  "or_zero m = (case m of None \<Rightarrow> Finite 0
                | Some v \<Rightarrow> if v = NaN \<or> v = Finite 0 then Finite 0 else v)"

definition nullish_or :: "'a option \<Rightarrow> 'a \<Rightarrow> 'a" where
  "nullish_or m d = (case m of None \<Rightarrow> d | Some v \<Rightarrow> v)"

subsection \<open>AxisRuntime\<close>

text \<open>
  The observable fields of \<^verbatim>\<open>AxisRuntime\<close>. The fields typed \<^verbatim>\<open>true | undefined\<close>
  are booleans; \<^verbatim>\<open>min\<close> and \<^verbatim>\<open>max\<close> may be \<^verbatim>\<open>undefined\<close>.
\<close>

record AxisRuntime =
  ar_min :: "number option"
  ar_max :: "number option"
  ar_scaleType :: ScaleType
  ar_canChangeScaleType :: bool
  ar_label :: string
  ar_removePointsOutsideDomain :: bool

text \<open>
  The finalized \<^verbatim>\<open>AxisSpec\<close>, over the number type of its domain. The
  \<^verbatim>\<open>tickFormat\<close> function belongs to the formatting service and is not a field here.
\<close>

record 'n AxisSpec =
  spec_scaleType :: ScaleType
  spec_scaleTypeOptions :: "ScaleType list"
  spec_label :: string
  spec_domain :: "'n \<times> 'n"
  spec_hideFractionalTicks :: bool
  spec_hideGridlines :: bool

text \<open>
  \<^verbatim>\<open>
  if (this.scaleType === ScaleType.log && (this.min || 0) <= 0) return Infinity
  return this.min ?? Infinity
  \<close>
\<close>

definition constrainedMin :: "AxisRuntime \<Rightarrow> number" where
  "constrainedMin r =
     (if ar_scaleType r = Log \<and> js_le (or_zero (ar_min r)) (Finite 0) then Infinity
      else nullish_or (ar_min r) Infinity)"

definition constrainedMax :: "AxisRuntime \<Rightarrow> number" where
  "constrainedMax r =
     (if ar_scaleType r = Log \<and> js_le (or_zero (ar_max r)) (Finite 0) then NegInfinity
      else nullish_or (ar_max r) NegInfinity)"

definition isOutsideDomain :: "AxisRuntime \<Rightarrow> number \<Rightarrow> bool" where
  "isOutsideDomain r v = (js_lt v (constrainedMin r) \<or> js_gt v (constrainedMax r))"

definition domain_of :: "AxisRuntime \<Rightarrow> number \<times> number" where
  "domain_of r = (constrainedMin r, constrainedMax r)"

definition scaleTypeOptions_of :: "AxisRuntime \<Rightarrow> ScaleType list" where
  "scaleTypeOptions_of r = (if ar_canChangeScaleType r then [Linear, Log] else [ar_scaleType r])"

definition toSpec :: "AxisRuntime \<Rightarrow> number \<times> number \<Rightarrow> number AxisSpec" where
  "toSpec r defaultDomain =
     \<lparr>spec_scaleType = ar_scaleType r,
      spec_scaleTypeOptions = scaleTypeOptions_of r,
      spec_label = ar_label r,
      spec_domain = (Math_min (fst (domain_of r)) (fst defaultDomain),
                     Math_max (snd (domain_of r)) (snd defaultDomain)),
      spec_hideFractionalTicks = False,
      spec_hideGridlines = False\<rparr>"

subsection \<open>Properties of the finalized domain\<close>

lemma Math_min_le_right: "x \<noteq> NaN \<Longrightarrow> a \<noteq> NaN \<Longrightarrow> js_le (Math_min x a) a"
  by (cases x; cases a) (auto simp: Math_min_def)

lemma Math_max_ge_right: "x \<noteq> NaN \<Longrightarrow> b \<noteq> NaN \<Longrightarrow> js_le b (Math_max x b)"
  by (cases x; cases b) (auto simp: Math_max_def)

lemma Math_min_Infinity: "a \<noteq> NaN \<Longrightarrow> Math_min Infinity a = a"
  by (cases a) (auto simp: Math_min_def)

lemma Math_max_NegInfinity: "b \<noteq> NaN \<Longrightarrow> Math_max NegInfinity b = b"
  by (cases b) (auto simp: Math_max_def)

lemma constrainedMin_not_NaN: "ar_min r \<noteq> Some NaN \<Longrightarrow> constrainedMin r \<noteq> NaN"
  by (cases "ar_min r") (auto simp: constrainedMin_def nullish_or_def)

lemma constrainedMax_not_NaN: "ar_max r \<noteq> Some NaN \<Longrightarrow> constrainedMax r \<noteq> NaN"
  by (cases "ar_max r") (auto simp: constrainedMax_def nullish_or_def)

lemma constrainedMin_fallback:
  "ar_min r = None \<or> (ar_scaleType r = Log \<and> js_le (or_zero (ar_min r)) (Finite 0))
   \<Longrightarrow> constrainedMin r = Infinity"
  by (auto simp: constrainedMin_def nullish_or_def)

lemma constrainedMax_fallback:
  "ar_max r = None \<or> (ar_scaleType r = Log \<and> js_le (or_zero (ar_max r)) (Finite 0))
   \<Longrightarrow> constrainedMax r = NegInfinity"
  by (auto simp: constrainedMax_def nullish_or_def)

text \<open>
  C9 (as amended). For every axis configuration whose \<open>min\<close> and \<open>max\<close>, where set, are
  not \<open>NaN\<close>, and every default domain \<open>[a, b]\<close> with neither endpoint \<open>NaN\<close>, the domain
  \<open>[lo, hi]\<close> of the spec returned by \<open>toSpec\<close> satisfies \<open>lo <= a\<close> and \<open>hi >= b\<close>,
  whatever the configured bounds and the scale type; an unset or log-invalid minimum
  (maximum) falls back to the default endpoint.
\<close>

theorem toSpec_contains_defaultDomain:
  assumes "ar_min r \<noteq> Some NaN" and "ar_max r \<noteq> Some NaN" and "a \<noteq> NaN" and "b \<noteq> NaN"
  shows "js_le (fst (spec_domain (toSpec r (a, b)))) a
       \<and> js_ge (snd (spec_domain (toSpec r (a, b)))) b
       \<and> ((ar_min r = None \<or> (ar_scaleType r = Log \<and> js_le (or_zero (ar_min r)) (Finite 0)))
            \<longrightarrow> fst (spec_domain (toSpec r (a, b))) = a)
       \<and> ((ar_max r = None \<or> (ar_scaleType r = Log \<and> js_le (or_zero (ar_max r)) (Finite 0)))
            \<longrightarrow> snd (spec_domain (toSpec r (a, b))) = b)"
proof -
  have lo: "fst (spec_domain (toSpec r (a, b))) = Math_min (constrainedMin r) a"
    and hi: "snd (spec_domain (toSpec r (a, b))) = Math_max (constrainedMax r) b"
    by (simp_all add: toSpec_def domain_of_def)
  have 1: "js_le (Math_min (constrainedMin r) a) a"
    using constrainedMin_not_NaN [OF assms(1)] assms(3) by (rule Math_min_le_right)
  have 2: "js_le b (Math_max (constrainedMax r) b)"
    using constrainedMax_not_NaN [OF assms(2)] assms(4) by (rule Math_max_ge_right)
  have 3: "Math_min (constrainedMin r) a = a"
    if "ar_min r = None \<or> (ar_scaleType r = Log \<and> js_le (or_zero (ar_min r)) (Finite 0))"
    using constrainedMin_fallback [OF that] assms(3) by (simp add: Math_min_Infinity)
  have 4: "Math_max (constrainedMax r) b = b"
    if "ar_max r = None \<or> (ar_scaleType r = Log \<and> js_le (or_zero (ar_max r)) (Finite 0))"
    using constrainedMax_fallback [OF that] assms(4) by (simp add: Math_max_NegInfinity)
  show ?thesis
    unfolding lo hi js_ge_def using 1 2 3 4 by blast
qed

theorem toSpec_contains_defaultDomain_witness:
  "js_le (fst (spec_domain (toSpec \<lparr>ar_min = Some (Finite 5), ar_max = Some (Finite (- 3)),
        ar_scaleType = Log, ar_canChangeScaleType = True, ar_label = ''GDP'',
        ar_removePointsOutsideDomain = False\<rparr> (Finite 10, Finite 20)))) (Finite 10)
   \<and> spec_domain (toSpec \<lparr>ar_min = Some (Finite 5), ar_max = Some (Finite (- 3)),
        ar_scaleType = Log, ar_canChangeScaleType = True, ar_label = ''GDP'',
        ar_removePointsOutsideDomain = False\<rparr> (Finite 10, Finite 20))
      = (Finite 5, Finite 20)"
  using toSpec_contains_defaultDomain [of "\<lparr>ar_min = Some (Finite 5), ar_max = Some (Finite (- 3)),
        ar_scaleType = Log, ar_canChangeScaleType = True, ar_label = ''GDP'',
        ar_removePointsOutsideDomain = False\<rparr>" "Finite 10" "Finite 20"]
  by (simp add: toSpec_def domain_of_def constrainedMin_def constrainedMax_def or_zero_def
      nullish_or_def Math_min_def Math_max_def)

text \<open>
  The claim as first stated covers every configuration. A linear axis whose configured
  minimum is \<open>NaN\<close> passes it through \<^verbatim>\<open>this.min ?? Infinity\<close> and \<^verbatim>\<open>Math.min\<close>: the
  lower bound of the finalized domain is \<open>NaN\<close>, and \<open>NaN <= 0\<close> is false.
\<close>

theorem toSpec_NaN_min_counterexample:
  "\<not> js_le (fst (spec_domain (toSpec \<lparr>ar_min = Some NaN, ar_max = None,
        ar_scaleType = Linear, ar_canChangeScaleType = False, ar_label = '''',
        ar_removePointsOutsideDomain = False\<rparr> (Finite 0, Finite 10)))) (Finite 0)"
  by (simp add: toSpec_def domain_of_def constrainedMin_def nullish_or_def Math_min_def)

text \<open>
  C10. With both \<open>min\<close> and \<open>max\<close> left undefined, \<open>constrainedMin\<close> is \<open>Infinity\<close> and
  \<open>constrainedMax\<close> is \<open>-Infinity\<close>, and \<open>isOutsideDomain\<close> is true of every value that is
  not \<open>NaN\<close>.
\<close>

theorem isOutsideDomain_unbounded:
  assumes "ar_min r = None" and "ar_max r = None" and "v \<noteq> NaN"
  shows "constrainedMin r = Infinity \<and> constrainedMax r = NegInfinity \<and> isOutsideDomain r v"
proof -
  have lo: "constrainedMin r = Infinity"
    using assms(1) by (simp add: constrainedMin_fallback)
  have hi: "constrainedMax r = NegInfinity"
    using assms(2) by (simp add: constrainedMax_fallback)
  have "js_lt v Infinity \<or> js_lt NegInfinity v"
    using assms(3) by (cases v) simp_all
  then have "isOutsideDomain r v"
    by (simp add: isOutsideDomain_def js_gt_def lo hi)
  with lo hi show ?thesis by simp
qed

theorem isOutsideDomain_unbounded_witness:
  "isOutsideDomain \<lparr>ar_min = None, ar_max = None, ar_scaleType = Linear,
       ar_canChangeScaleType = False, ar_label = '''',
       ar_removePointsOutsideDomain = False\<rparr> (Finite 42)
   \<and> isOutsideDomain \<lparr>ar_min = None, ar_max = None, ar_scaleType = Linear,
       ar_canChangeScaleType = False, ar_label = '''',
       ar_removePointsOutsideDomain = False\<rparr> Infinity"
  using isOutsideDomain_unbounded [of "\<lparr>ar_min = None, ar_max = None, ar_scaleType = Linear,
       ar_canChangeScaleType = False, ar_label = '''',
       ar_removePointsOutsideDomain = False\<rparr>" "Finite 42"]
    isOutsideDomain_unbounded [of "\<lparr>ar_min = None, ar_max = None, ar_scaleType = Linear,
       ar_canChangeScaleType = False, ar_label = '''',
       ar_removePointsOutsideDomain = False\<rparr>" Infinity]
  by simp

section \<open>Bounds (charts/utils/Bounds)\<close>

text \<open>
  Pixel geometry is modelled over the reals.
\<close>

record Bounds =
  b_x :: real
  b_y :: real
  b_width :: real
  b_height :: real

text \<open>
  Modelled from the spec: the \<^verbatim>\<open>Bounds\<close> class of \<^verbatim>\<open>charts/utils/Bounds\<close> is not
  among the sources. The spec describes it as an immutable axis-aligned rectangle with
  the accessors \<^verbatim>\<open>left/right/top/bottom/width/height\<close>, the operations
  \<^verbatim>\<open>padLeft/padRight/padTop/padBottom(amount)\<close>, \<^verbatim>\<open>intersects(other)\<close>,
  \<^verbatim>\<open>xRange()/yRange()\<close> and \<^verbatim>\<open>padWidth(delta)\<close>, of which "negative delta
  shrinks". Screen coordinates: \<open>y\<close> grows downwards, so the top edge is \<open>y\<close> (\<open>top_y\<close> here) and
  \<open>bottom = y + height\<close>; padding an edge moves that edge inwards by the amount.
\<close>

definition left :: "Bounds \<Rightarrow> real" where
  "left b = b_x b"

definition right :: "Bounds \<Rightarrow> real" where
  "right b = b_x b + b_width b"

definition top_y :: "Bounds \<Rightarrow> real" where
  "top_y b = b_y b"

definition bottom :: "Bounds \<Rightarrow> real" where
  "bottom b = b_y b + b_height b"



text \<open>
  Modelled from the spec: \<^verbatim>\<open>padWidth(delta)\<close> moves both vertical edges, and a
  negative delta shrinks the rectangle, by \<open>|delta|\<close> on each side.
\<close>

definition padWidth :: "Bounds \<Rightarrow> real \<Rightarrow> Bounds" where
  "padWidth b delta = b\<lparr>b_x := b_x b - delta, b_width := b_width b + 2 * delta\<rparr>"

text \<open>
  Modelled from the spec: \<^verbatim>\<open>intersects\<close> is the overlap test of two axis-aligned
  rectangles, edges included.
\<close>

definition intersects :: "Bounds \<Rightarrow> Bounds \<Rightarrow> bool" where
  "intersects r1 r2 =
     (\<not> (left r2 > right r1 \<or> right r2 < left r1 \<or> top_y r2 > bottom r1 \<or> bottom r2 < top_y r1))"



text \<open>
  Modelled from the spec: \<^verbatim>\<open>bounds.extend({x, y})\<close> is the same rectangle moved to the
  given origin.
\<close>

definition extend_xy :: "Bounds \<Rightarrow> real \<times> real \<Rightarrow> Bounds" where
  "extend_xy b p = b\<lparr>b_x := fst p, b_y := snd p\<rparr>"

section \<open>The intersection test of an axis (AxisBox.tsx)\<close>

text \<open>The two concrete subclasses of \<^verbatim>\<open>AbstractAxis\<close>.\<close>

datatype Orientation = Horizontal | Vertical

text \<open>
  \<^verbatim>\<open>AbstractAxis.doIntersect\<close> is \<^verbatim>\<open>bounds.intersects(bounds2)\<close>; the vertical
  axis inherits it, the horizontal axis overrides it with
  \<^verbatim>\<open>bounds.intersects(bounds2.padWidth(-5))\<close>.
\<close>

fun doIntersect :: "Orientation \<Rightarrow> Bounds \<Rightarrow> Bounds \<Rightarrow> bool" where
  "doIntersect Vertical bounds bounds2 = intersects bounds bounds2"
| "doIntersect Horizontal bounds bounds2 = intersects bounds (padWidth bounds2 (- 5))"

lemma intersects_sym: "intersects r1 r2 = intersects r2 r1"
  by (auto simp: intersects_def)

lemma doIntersect_Horizontal_coords:
  "doIntersect Horizontal b1 b2 \<longleftrightarrow>
     left b2 + 5 \<le> right b1 \<and> left b1 + 5 \<le> right b2 \<and>
     top_y b2 \<le> bottom b1 \<and> top_y b1 \<le> bottom b2"
  by (auto simp: intersects_def padWidth_def left_def right_def top_y_def bottom_def)

lemma doIntersect_sym: "doIntersect ax b1 b2 = doIntersect ax b2 b1"
proof (cases ax)
  case Horizontal
  show ?thesis
    unfolding Horizontal doIntersect_Horizontal_coords by auto
next
  case Vertical
  then show ?thesis by (simp add: intersects_sym)
qed

text \<open>
  The method of the horizontal axis once more, with the absent \<^verbatim>\<open>padWidth\<close> as a
  parameter, so that what it does to the two bounds can be stated whatever
  \<^verbatim>\<open>padWidth\<close> does: \<^verbatim>\<open>bounds.intersects(bounds2.padWidth(-5))\<close>.
\<close>

definition HorizontalAxis_doIntersect ::
  "(Bounds \<Rightarrow> real \<Rightarrow> Bounds) \<Rightarrow> Bounds \<Rightarrow> Bounds \<Rightarrow> bool" where
  "HorizontalAxis_doIntersect padW bounds bounds2 = intersects bounds (padW bounds2 (- 5))"

text \<open>
  The spec's words on \<^verbatim>\<open>padWidth\<close> ("negative delta shrinks") are at odds with the
  convention of the calls the sources do contain (\<^verbatim>\<open>padBottom\<close>, \<^verbatim>\<open>padLeft\<close>,
  \<^verbatim>\<open>padRight\<close>: a positive amount moves the edge inwards). This is \<^verbatim>\<open>padWidth\<close>
  under that other convention, where \<^verbatim>\<open>padWidth(-5)\<close> widens by 5px on each side;
  it is used only to show that what is proved about the test does not hang on the sign.
\<close>

definition padWidth_inward :: "Bounds \<Rightarrow> real \<Rightarrow> Bounds" where
  "padWidth_inward b amount = b\<lparr>b_x := b_x b + amount, b_width := b_width b - 2 * amount\<rparr>"

lemma doIntersect_Horizontal_eq:
  "doIntersect Horizontal b1 b2 = HorizontalAxis_doIntersect padWidth b1 b2"
  by (simp add: HorizontalAxis_doIntersect_def)

lemma padWidth_edges:
  "left (padWidth b (- 5)) = left b + 5 \<and> right (padWidth b (- 5)) = right b - 5
   \<and> top_y (padWidth b (- 5)) = top_y b \<and> bottom (padWidth b (- 5)) = bottom b"
  by (simp add: padWidth_def left_def right_def top_y_def bottom_def)

lemma padWidth_inward_edges:
  "left (padWidth_inward b (- 5)) = left b + (- 5) \<and> right (padWidth_inward b (- 5)) = right b - (- 5)
   \<and> top_y (padWidth_inward b (- 5)) = top_y b \<and> bottom (padWidth_inward b (- 5)) = bottom b"
  by (simp add: padWidth_inward_def left_def right_def top_y_def bottom_def)

text \<open>
  C3 (as amended). On a horizontal axis the overlap test pads only the second of the two
  bounds: \<open>doIntersect(b1, b2)\<close> holds exactly when \<open>b1\<close>, with its own unpadded edges,
  intersects \<open>b2.padWidth(-5)\<close>. Whichever way \<open>padWidth(-5)\<close> moves the two vertical
  edges, inwards by \<open>d\<close> each (\<open>d = 5\<close> if a negative delta shrinks, \<open>d = -5\<close> if it
  widens) and leaving top and bottom, the test holds exactly when
  \<open>b2.left + d <= b1.right\<close>, \<open>b1.left + d <= b2.right\<close>, \<open>b2.top <= b1.bottom\<close> and
  \<open>b1.top <= b2.bottom\<close>.
\<close>

theorem HorizontalAxis_doIntersect_pads_second_only:
  assumes "\<forall>b. left (padW b (- 5)) = left b + d \<and> right (padW b (- 5)) = right b - d
             \<and> top_y (padW b (- 5)) = top_y b \<and> bottom (padW b (- 5)) = bottom b"
  shows "(HorizontalAxis_doIntersect padW b1 b2 \<longleftrightarrow>
            \<not> (left (padW b2 (- 5)) > right b1 \<or> right (padW b2 (- 5)) < left b1
               \<or> top_y (padW b2 (- 5)) > bottom b1 \<or> bottom (padW b2 (- 5)) < top_y b1))
       \<and> (HorizontalAxis_doIntersect padW b1 b2 \<longleftrightarrow>
            left b2 + d \<le> right b1 \<and> left b1 + d \<le> right b2 \<and>
            top_y b2 \<le> bottom b1 \<and> top_y b1 \<le> bottom b2)
       \<and> doIntersect Horizontal b1 b2 = HorizontalAxis_doIntersect padWidth b1 b2"
proof -
  have own: "HorizontalAxis_doIntersect padW b1 b2 \<longleftrightarrow>
            \<not> (left (padW b2 (- 5)) > right b1 \<or> right (padW b2 (- 5)) < left b1
               \<or> top_y (padW b2 (- 5)) > bottom b1 \<or> bottom (padW b2 (- 5)) < top_y b1)"
    by (simp add: HorizontalAxis_doIntersect_def intersects_def)
  from assms have edges: "left (padW b2 (- 5)) = left b2 + d" "right (padW b2 (- 5)) = right b2 - d"
      "top_y (padW b2 (- 5)) = top_y b2" "bottom (padW b2 (- 5)) = bottom b2"
    by simp_all
  have coords: "HorizontalAxis_doIntersect padW b1 b2 \<longleftrightarrow>
            left b2 + d \<le> right b1 \<and> left b1 + d \<le> right b2 \<and>
            top_y b2 \<le> bottom b1 \<and> top_y b1 \<le> bottom b2"
    unfolding own edges by auto
  from own coords doIntersect_Horizontal_eq [of b1 b2] show ?thesis by blast
qed

theorem HorizontalAxis_doIntersect_pads_second_only_witness:
  "HorizontalAxis_doIntersect padWidth
      \<lparr>b_x = 0, b_y = 0, b_width = 20, b_height = 10\<rparr>
      \<lparr>b_x = 13, b_y = 0, b_width = 20, b_height = 10\<rparr>
   \<and> \<not> HorizontalAxis_doIntersect padWidth
      \<lparr>b_x = 0, b_y = 0, b_width = 20, b_height = 10\<rparr>
      \<lparr>b_x = 17, b_y = 0, b_width = 20, b_height = 10\<rparr>
   \<and> HorizontalAxis_doIntersect padWidth_inward
      \<lparr>b_x = 0, b_y = 0, b_width = 20, b_height = 10\<rparr>
      \<lparr>b_x = 23, b_y = 0, b_width = 20, b_height = 10\<rparr>
   \<and> \<not> HorizontalAxis_doIntersect padWidth_inward
      \<lparr>b_x = 0, b_y = 0, b_width = 20, b_height = 10\<rparr>
      \<lparr>b_x = 28, b_y = 0, b_width = 20, b_height = 10\<rparr>"
proof -
  have shrink: "\<forall>b. left (padWidth b (- 5)) = left b + 5 \<and> right (padWidth b (- 5)) = right b - 5
             \<and> top_y (padWidth b (- 5)) = top_y b \<and> bottom (padWidth b (- 5)) = bottom b"
    using padWidth_edges by blast
  have widen: "\<forall>b. left (padWidth_inward b (- 5)) = left b + (- 5)
             \<and> right (padWidth_inward b (- 5)) = right b - (- 5)
             \<and> top_y (padWidth_inward b (- 5)) = top_y b
             \<and> bottom (padWidth_inward b (- 5)) = bottom b"
    using padWidth_inward_edges by blast
  note s = HorizontalAxis_doIntersect_pads_second_only
      [where padW = padWidth and d = 5, OF shrink, THEN conjunct2, THEN conjunct1]
  note w = HorizontalAxis_doIntersect_pads_second_only
      [where padW = padWidth_inward and d = "- 5", OF widen, THEN conjunct2, THEN conjunct1]
  have 1: "HorizontalAxis_doIntersect padWidth
      \<lparr>b_x = 0, b_y = 0, b_width = 20, b_height = 10\<rparr>
      \<lparr>b_x = 13, b_y = 0, b_width = 20, b_height = 10\<rparr>"
    unfolding s by (simp add: left_def right_def top_y_def bottom_def)
  have 2: "\<not> HorizontalAxis_doIntersect padWidth
      \<lparr>b_x = 0, b_y = 0, b_width = 20, b_height = 10\<rparr>
      \<lparr>b_x = 17, b_y = 0, b_width = 20, b_height = 10\<rparr>"
    unfolding s by (simp add: left_def right_def top_y_def bottom_def)
  have 3: "HorizontalAxis_doIntersect padWidth_inward
      \<lparr>b_x = 0, b_y = 0, b_width = 20, b_height = 10\<rparr>
      \<lparr>b_x = 23, b_y = 0, b_width = 20, b_height = 10\<rparr>"
    unfolding w by (simp add: left_def right_def top_y_def bottom_def)
  have 4: "\<not> HorizontalAxis_doIntersect padWidth_inward
      \<lparr>b_x = 0, b_y = 0, b_width = 20, b_height = 10\<rparr>
      \<lparr>b_x = 28, b_y = 0, b_width = 20, b_height = 10\<rparr>"
    unfolding w by (simp add: left_def right_def top_y_def bottom_def)
  from 1 2 3 4 show ?thesis by simp
qed

text \<open>
  The claim as first stated has both bounds shrunk by 5px. Two labels of width 20 at
  \<open>x = 0\<close> and \<open>x = 13\<close> on the same line: the test of the axis holds, under either
  sign convention of \<^verbatim>\<open>padWidth\<close> (\<open>[0, 20]\<close> meets \<open>[18, 28]\<close>, and it meets
  \<open>[8, 38]\<close>), but the two bounds shrunk by 5px, \<open>[5, 15]\<close> and \<open>[18, 28]\<close>, do not
  intersect. Nor is the test that of the two bounds both padded by \<^verbatim>\<open>padWidth(-5)\<close>
  when that widens: labels at \<open>x = 0\<close> and \<open>x = 28\<close> fail the test of the axis
  (\<open>[0, 20]\<close> misses \<open>[23, 53]\<close>), while \<open>[-5, 25]\<close> and \<open>[23, 53]\<close> intersect.
\<close>

theorem doIntersect_both_shrunk_counterexample:
  "doIntersect Horizontal \<lparr>b_x = 0, b_y = 0, b_width = 20, b_height = 10\<rparr>
                          \<lparr>b_x = 13, b_y = 0, b_width = 20, b_height = 10\<rparr>
   \<and> HorizontalAxis_doIntersect padWidth_inward
        \<lparr>b_x = 0, b_y = 0, b_width = 20, b_height = 10\<rparr>
        \<lparr>b_x = 13, b_y = 0, b_width = 20, b_height = 10\<rparr>
   \<and> \<not> intersects (padWidth \<lparr>b_x = 0, b_y = 0, b_width = 20, b_height = 10\<rparr> (- 5))
                   (padWidth \<lparr>b_x = 13, b_y = 0, b_width = 20, b_height = 10\<rparr> (- 5))
   \<and> padWidth \<lparr>b_x = 0, b_y = 0, b_width = 20, b_height = 10\<rparr> (- 5)
        = \<lparr>b_x = 5, b_y = 0, b_width = 10, b_height = 10\<rparr>
   \<and> padWidth \<lparr>b_x = 13, b_y = 0, b_width = 20, b_height = 10\<rparr> (- 5)
        = \<lparr>b_x = 18, b_y = 0, b_width = 10, b_height = 10\<rparr>
   \<and> \<not> HorizontalAxis_doIntersect padWidth_inward
        \<lparr>b_x = 0, b_y = 0, b_width = 20, b_height = 10\<rparr>
        \<lparr>b_x = 28, b_y = 0, b_width = 20, b_height = 10\<rparr>
   \<and> intersects (padWidth_inward \<lparr>b_x = 0, b_y = 0, b_width = 20, b_height = 10\<rparr> (- 5))
                 (padWidth_inward \<lparr>b_x = 28, b_y = 0, b_width = 20, b_height = 10\<rparr> (- 5))"
  by (simp add: HorizontalAxis_doIntersect_def intersects_def padWidth_def padWidth_inward_def
      left_def right_def top_y_def bottom_def)

section \<open>Axis layout (AxisBox.tsx): scales, ticks and placements\<close>

text \<open>
  A tick candidate of \<^verbatim>\<open>./AxisScale\<close>. The optional flags are \<open>False\<close> when the
  object literal leaves them out.
\<close>

record Tickmark =
  tm_value :: real
  tm_priority :: nat
  tm_isFirstOrLastTick :: bool
  tm_gridLineOnly :: bool
  tm_faint :: bool

text \<open>
  The identity of a tick object: the \<open>n\<close>-th object handed out by the scale, or one of
  the two object literals \<^verbatim>\<open>HorizontalAxis.baseTicks\<close> creates. A list of tick
  objects is a list of identities with their contents.
\<close>

datatype tick_ref = ScaleTick nat | StartTick | EndTick

type_synonym tick_obj = "tick_ref \<times> Tickmark"

text \<open>
  An \<^verbatim>\<open>AxisScale\<close>: an axis spec (over real domains) together with a pixel range.
  \<^verbatim>\<open>new AxisScale(spec).clone({ range })\<close> is \<open>AxisScale_clone spec range\<close>.
\<close>

record AxisScale =
  scale_spec :: "real AxisSpec"
  scale_range :: "real \<times> real"

definition AxisScale_clone :: "real AxisSpec \<Rightarrow> real \<times> real \<Rightarrow> AxisScale" where
  "AxisScale_clone spec rng = \<lparr>scale_spec = spec, scale_range = rng\<rparr>"

text \<open>
  The collaborators the layout consumes and the sources do not contain: text measurement
  (\<^verbatim>\<open>Bounds.forText(str, { fontSize })\<close>, whose string may be \<^verbatim>\<open>undefined\<close>),
  text wrapping (the height of \<^verbatim>\<open>new TextWrap({ maxWidth, fontSize, text })\<close>), and
  of the scale its tick candidates (each with the number of the object it is), its
  formatted ticks, its tick formatter (value and \<^verbatim>\<open>isFirstOrLastTick\<close>), its
  \<^verbatim>\<open>place\<close> and its \<^verbatim>\<open>rangeSize\<close>. They are parameters of the model.
\<close>

record services =
  forText :: "string option \<Rightarrow> real \<Rightarrow> Bounds"
  wrapHeight :: "real \<Rightarrow> real \<Rightarrow> string \<Rightarrow> real"
  getTickValues :: "AxisScale \<Rightarrow> (nat \<times> Tickmark) list"
  getFormattedTicks :: "AxisScale \<Rightarrow> string list"
  tickFormat :: "AxisScale \<Rightarrow> real \<Rightarrow> bool \<Rightarrow> string"
  place :: "AxisScale \<Rightarrow> real \<Rightarrow> real"
  rangeSize :: "AxisScale \<Rightarrow> real"

record AxisProps =
  ax_scale :: AxisScale
  ax_labelText :: string
  ax_fontSize :: real

definition tickFontSize :: "AxisProps \<Rightarrow> real" where
  "tickFontSize A = 0.9 * ax_fontSize A"

definition labelFontSize :: "AxisProps \<Rightarrow> real" where
  "labelFontSize A = 0.7 * ax_fontSize A"

text \<open>
  \<^verbatim>\<open>labelWidth\<close> is \<^verbatim>\<open>scale.rangeSize\<close> on the horizontal axis and
  \<^verbatim>\<open>this.height\<close>, again \<^verbatim>\<open>scale.rangeSize\<close>, on the vertical one.
\<close>

definition labelWidth :: "services \<Rightarrow> Orientation \<Rightarrow> AxisProps \<Rightarrow> real" where
  "labelWidth E ax A = rangeSize E (ax_scale A)"

text \<open>
  \<^verbatim>\<open>label\<close>: a \<^verbatim>\<open>TextWrap\<close> when the label text is non-empty, else
  \<^verbatim>\<open>undefined\<close>; only its height is read.
\<close>

definition label_height :: "services \<Rightarrow> Orientation \<Rightarrow> AxisProps \<Rightarrow> real option" where
  "label_height E ax A =
     (if ax_labelText A = [] then None
      else Some (wrapHeight E (labelWidth E ax A) (labelFontSize A) (ax_labelText A)))"

definition labelPadding :: real where
  "labelPadding = 5"

fun labelOffset :: "services \<Rightarrow> Orientation \<Rightarrow> AxisProps \<Rightarrow> real" where
  "labelOffset E Vertical A =
     (case label_height E Vertical A of Some h \<Rightarrow> h + 10 | None \<Rightarrow> 0)"
| "labelOffset E Horizontal A =
     (case label_height E Horizontal A of Some h \<Rightarrow> h + labelPadding * 2 | None \<Rightarrow> 0)"




subsection \<open>Tick candidates\<close>

text \<open>\<^verbatim>\<open>d % 1 === 0\<close>: the number is whole.\<close>

definition isWhole :: "real \<Rightarrow> bool" where
  "isWhole d = (of_int \<lfloor>d\<rfloor> = d)"

text \<open>
  \<^verbatim>\<open>uniq\<close> (lodash) keeps the first occurrence of each element under SameValueZero;
  on objects that is identity, so a tick object is dropped only when the very same object
  occurred before.
\<close>

fun uniq :: "tick_obj list \<Rightarrow> tick_obj list" where
  "uniq [] = []"
| "uniq (t # ts) = t # filter (\<lambda>u. fst u \<noteq> fst t) (uniq ts)"

definition AbstractAxis_baseTicks :: "services \<Rightarrow> AxisProps \<Rightarrow> tick_obj list" where
  "AbstractAxis_baseTicks E A =
     filter (\<lambda>tick. \<not> tm_gridLineOnly (snd tick))
       (map (\<lambda>(n, t). (ScaleTick n, t)) (getTickValues E (ax_scale A)))"

definition startEndPrio :: "AxisScale \<Rightarrow> nat" where
  "startEndPrio S = (if spec_scaleType (scale_spec S) = Log then 2 else 1)"

definition endpointTick :: "AxisScale \<Rightarrow> real \<Rightarrow> Tickmark" where
  "endpointTick S v =
     \<lparr>tm_value = v, tm_priority = startEndPrio S, tm_isFirstOrLastTick = True,
      tm_gridLineOnly = False, tm_faint = False\<rparr>"

definition HorizontalAxis_baseTicks :: "services \<Rightarrow> AxisProps \<Rightarrow> tick_obj list" where
  "HorizontalAxis_baseTicks E A =
     (let S = ax_scale A;
          domain = spec_domain (scale_spec S);
          ticks = AbstractAxis_baseTicks E A;
          ticks = (if isWhole (fst domain)
                   then (StartTick, endpointTick S (fst domain)) # ticks else ticks);
          ticks = (if isWhole (snd domain) \<and> spec_hideFractionalTicks (scale_spec S)
                   then ticks @ [(EndTick, endpointTick S (snd domain))] else ticks)
      in uniq ticks)"

fun baseTicks :: "services \<Rightarrow> Orientation \<Rightarrow> AxisProps \<Rightarrow> tick_obj list" where
  "baseTicks E Vertical A = AbstractAxis_baseTicks E A"
| "baseTicks E Horizontal A = HorizontalAxis_baseTicks E A"

subsection \<open>Placements and the collision pass\<close>

record TickPlacement =
  tp_tick :: real
  tp_bounds :: Bounds
  tp_isHidden :: bool

fun placeTick :: "services \<Rightarrow> Orientation \<Rightarrow> AxisProps \<Rightarrow> real \<Rightarrow> Bounds \<Rightarrow> real \<times> real" where
  "placeTick E Vertical A tickValue bounds = (1, place E (ax_scale A) tickValue)"
| "placeTick E Horizontal A tickValue bounds =
     (place E (ax_scale A) tickValue - b_width bounds / 2,
      bottom bounds - labelOffset E Horizontal A)"

text \<open>\<^verbatim>\<open>sortBy(xs, f)\<close> (lodash) is a stable sort, ascending in the key.\<close>

definition sortBy :: "('a \<Rightarrow> nat) \<Rightarrow> 'a list \<Rightarrow> 'a list" where
  "sortBy f xs = sort_key f xs"

definition sortedTicks :: "services \<Rightarrow> Orientation \<Rightarrow> AxisProps \<Rightarrow> tick_obj list" where
  "sortedTicks E ax A = sortBy (\<lambda>tick. tm_priority (snd tick)) (baseTicks E ax A)"

definition mkPlacement :: "services \<Rightarrow> Orientation \<Rightarrow> AxisProps \<Rightarrow> tick_obj \<Rightarrow> TickPlacement" where
  "mkPlacement E ax A tick =
     (let bounds = forText E
            (Some (tickFormat E (ax_scale A) (tm_value (snd tick)) (tm_isFirstOrLastTick (snd tick))))
            (tickFontSize A)
      in \<lparr>tp_tick = tm_value (snd tick),
          tp_bounds = extend_xy bounds (placeTick E ax A (tm_value (snd tick)) bounds),
          tp_isHidden = False\<rparr>)"

definition tickPlacements :: "services \<Rightarrow> Orientation \<Rightarrow> AxisProps \<Rightarrow> TickPlacement list" where
  "tickPlacements E ax A = map (mkPlacement E ax A) (sortedTicks E ax A)"

text \<open>
  The body of the two nested loops of \<^verbatim>\<open>ticks\<close>, for one pair of indices. The
  placements are distinct objects, so \<^verbatim>\<open>t1 === t2\<close> is \<open>i = j\<close>.
  \<^verbatim>\<open>
  const t1 = tickPlacements[i], t2 = tickPlacements[j]
  if (t1 === t2 || t1.isHidden || t2.isHidden) continue
  if (this.doIntersect(t1.bounds, t2.bounds)) { t2.isHidden = true }
  \<close>
\<close>

definition compare_pair :: "Orientation \<Rightarrow> nat \<Rightarrow> nat \<Rightarrow> TickPlacement list \<Rightarrow> TickPlacement list" where
  "compare_pair ax i j ps =
     (let t1 = ps ! i; t2 = ps ! j
      in if i = j \<or> tp_isHidden t1 \<or> tp_isHidden t2 then ps
         else if doIntersect ax (tp_bounds t1) (tp_bounds t2)
              then ps[j := t2\<lparr>tp_isHidden := True\<rparr>]
              else ps)"

lemma length_compare_pair [simp]: "length (compare_pair ax i j ps) = length ps"
  by (simp add: compare_pair_def Let_def)

text \<open>The inner loop, \<^verbatim>\<open>for (let j = ...; j < tickPlacements.length; j++)\<close>.\<close>

function inner_loop :: "Orientation \<Rightarrow> nat \<Rightarrow> nat \<Rightarrow> TickPlacement list \<Rightarrow> TickPlacement list" where
  "inner_loop ax i j ps =
     (if j < length ps then inner_loop ax i (j + 1) (compare_pair ax i j ps) else ps)"
  by pat_completeness auto
termination
  by (relation "measure (\<lambda>(ax, i, j, ps). length ps - j)") auto

declare inner_loop.simps [simp del]

lemma length_inner_loop [simp]: "length (inner_loop ax i j ps) = length ps"
  by (induction ax i j ps rule: inner_loop.induct) (subst inner_loop.simps, simp)

text \<open>
  The outer loop, \<^verbatim>\<open>for (let i = 0; i < tickPlacements.length; i++)\<close>, whose body is
  the inner loop started at \<open>j = i + 1\<close>.
\<close>

function outer_loop :: "Orientation \<Rightarrow> nat \<Rightarrow> TickPlacement list \<Rightarrow> TickPlacement list" where
  "outer_loop ax i ps =
     (if i < length ps then outer_loop ax (i + 1) (inner_loop ax i (i + 1) ps) else ps)"
  by pat_completeness auto
termination
  by (relation "measure (\<lambda>(ax, i, ps). length ps - i)") auto

declare outer_loop.simps [simp del]

lemma length_outer_loop [simp]: "length (outer_loop ax i ps) = length ps"
  by (induction ax i ps rule: outer_loop.induct) (subst outer_loop.simps, simp)

text \<open>The placements after the collision pass, and those that survive it.\<close>

definition collisionPass :: "services \<Rightarrow> Orientation \<Rightarrow> AxisProps \<Rightarrow> TickPlacement list" where
  "collisionPass E ax A = outer_loop ax 0 (tickPlacements E ax A)"

definition surviving :: "services \<Rightarrow> Orientation \<Rightarrow> AxisProps \<Rightarrow> TickPlacement list" where
  "surviving E ax A = filter (\<lambda>t. \<not> tp_isHidden t) (collisionPass E ax A)"

text \<open>
  \<^verbatim>\<open>ticks\<close>: the tick values of the surviving placements, sorted ascending
  (\<^verbatim>\<open>sortBy\<close> with the identity).
\<close>

definition ticks :: "services \<Rightarrow> Orientation \<Rightarrow> AxisProps \<Rightarrow> real list" where
  "ticks E ax A = sort (map tp_tick (surviving E ax A))"

subsection \<open>Invariants of the collision pass\<close>

text \<open>One comparison.\<close>

lemma compare_pair_other: "k \<noteq> j \<Longrightarrow> compare_pair ax i j ps ! k = ps ! k"
  by (simp add: compare_pair_def Let_def)

lemma compare_pair_bounds:
  "k < length ps \<Longrightarrow> tp_bounds (compare_pair ax i j ps ! k) = tp_bounds (ps ! k)"
  by (cases "k = j") (simp_all add: compare_pair_def Let_def)

lemma compare_pair_tick:
  "k < length ps \<Longrightarrow> tp_tick (compare_pair ax i j ps ! k) = tp_tick (ps ! k)"
  by (cases "k = j") (simp_all add: compare_pair_def Let_def)

lemma compare_pair_hidden_mono:
  "k < length ps \<Longrightarrow> tp_isHidden (ps ! k) \<Longrightarrow> tp_isHidden (compare_pair ax i j ps ! k)"
  by (cases "k = j") (simp_all add: compare_pair_def Let_def)

lemma compare_pair_hides:
  "i \<noteq> j \<Longrightarrow> j < length ps \<Longrightarrow> \<not> tp_isHidden (ps ! i) \<Longrightarrow> \<not> tp_isHidden (ps ! j) \<Longrightarrow>
   doIntersect ax (tp_bounds (ps ! i)) (tp_bounds (ps ! j)) \<Longrightarrow>
   tp_isHidden (compare_pair ax i j ps ! j)"
  by (simp add: compare_pair_def Let_def)

text \<open>The inner loop.\<close>

lemma inner_loop_below: "k < j \<Longrightarrow> inner_loop ax i j ps ! k = ps ! k"
proof (induction ax i j ps rule: inner_loop.induct)
  case (1 ax i j ps)
  show ?case
  proof (cases "j < length ps")
    case True
    have "inner_loop ax i j ps ! k = inner_loop ax i (j + 1) (compare_pair ax i j ps) ! k"
      using True by (subst inner_loop.simps) simp
    also have "\<dots> = compare_pair ax i j ps ! k"
      using "1.IH" [OF True] "1.prems" by simp
    also have "\<dots> = ps ! k"
      using "1.prems" by (simp add: compare_pair_other)
    finally show ?thesis .
  next
    case False
    then show ?thesis by (subst inner_loop.simps) simp
  qed
qed

lemma inner_loop_bounds:
  "k < length ps \<Longrightarrow> tp_bounds (inner_loop ax i j ps ! k) = tp_bounds (ps ! k)"
proof (induction ax i j ps rule: inner_loop.induct)
  case (1 ax i j ps)
  show ?case
  proof (cases "j < length ps")
    case True
    have "tp_bounds (inner_loop ax i j ps ! k)
        = tp_bounds (inner_loop ax i (j + 1) (compare_pair ax i j ps) ! k)"
      using True by (subst inner_loop.simps) simp
    also have "\<dots> = tp_bounds (compare_pair ax i j ps ! k)"
      using "1.IH" [OF True] "1.prems" by simp
    also have "\<dots> = tp_bounds (ps ! k)"
      using "1.prems" by (rule compare_pair_bounds)
    finally show ?thesis .
  next
    case False
    then show ?thesis by (subst inner_loop.simps) simp
  qed
qed

lemma inner_loop_tick:
  "k < length ps \<Longrightarrow> tp_tick (inner_loop ax i j ps ! k) = tp_tick (ps ! k)"
proof (induction ax i j ps rule: inner_loop.induct)
  case (1 ax i j ps)
  show ?case
  proof (cases "j < length ps")
    case True
    have "tp_tick (inner_loop ax i j ps ! k)
        = tp_tick (inner_loop ax i (j + 1) (compare_pair ax i j ps) ! k)"
      using True by (subst inner_loop.simps) simp
    also have "\<dots> = tp_tick (compare_pair ax i j ps ! k)"
      using "1.IH" [OF True] "1.prems" by simp
    also have "\<dots> = tp_tick (ps ! k)"
      using "1.prems" by (rule compare_pair_tick)
    finally show ?thesis .
  next
    case False
    then show ?thesis by (subst inner_loop.simps) simp
  qed
qed

lemma inner_loop_hidden_mono:
  "k < length ps \<Longrightarrow> tp_isHidden (ps ! k) \<Longrightarrow> tp_isHidden (inner_loop ax i j ps ! k)"
proof (induction ax i j ps rule: inner_loop.induct)
  case (1 ax i j ps)
  show ?case
  proof (cases "j < length ps")
    case True
    have "tp_isHidden (compare_pair ax i j ps ! k)"
      using "1.prems" by (rule compare_pair_hidden_mono)
    then have "tp_isHidden (inner_loop ax i (j + 1) (compare_pair ax i j ps) ! k)"
      using "1.IH" [OF True] "1.prems" by simp
    then show ?thesis
      using True by (subst inner_loop.simps) simp
  next
    case False
    with "1.prems" show ?thesis by (subst inner_loop.simps) simp
  qed
qed

lemma inner_loop_invariant:
  "i < j \<Longrightarrow> j \<le> k \<Longrightarrow> k < length ps \<Longrightarrow>
   \<not> tp_isHidden (inner_loop ax i j ps ! i) \<Longrightarrow> \<not> tp_isHidden (inner_loop ax i j ps ! k) \<Longrightarrow>
   \<not> doIntersect ax (tp_bounds (ps ! i)) (tp_bounds (ps ! k))"
proof (induction ax i j ps rule: inner_loop.induct)
  case (1 ax i j ps)
  from "1.prems" have jlen: "j < length ps" by simp
  let ?ps' = "compare_pair ax i j ps"
  have unfold: "inner_loop ax i j ps = inner_loop ax i (j + 1) ?ps'"
    using jlen by (subst inner_loop.simps) simp
  have ilen: "i < length ps" using "1.prems" by simp
  show ?case
  proof (cases "k = j")
    case True
    show ?thesis
    proof
      assume hit: "doIntersect ax (tp_bounds (ps ! i)) (tp_bounds (ps ! k))"
      have fin_i: "inner_loop ax i j ps ! i = ps ! i"
        using "1.prems"(1) by (rule inner_loop_below)
      with "1.prems"(4) have nh_i: "\<not> tp_isHidden (ps ! i)" by simp
      have nh_j: "\<not> tp_isHidden (ps ! j)"
        using "1.prems"(5) inner_loop_hidden_mono [OF jlen, of ax i j] True by blast
      have "tp_isHidden (?ps' ! j)"
        using "1.prems"(1) jlen nh_i nh_j hit True by (intro compare_pair_hides) auto
      then have "tp_isHidden (inner_loop ax i (j + 1) ?ps' ! j)"
        using jlen by (intro inner_loop_hidden_mono) auto
      with "1.prems"(5) unfold True show False by simp
    qed
  next
    case False
    with "1.prems" have "j + 1 \<le> k" by simp
    moreover have "i < j + 1" using "1.prems" by simp
    moreover have "k < length ?ps'" using "1.prems" by simp
    moreover have "\<not> tp_isHidden (inner_loop ax i (j + 1) ?ps' ! i)"
      using "1.prems"(4) unfold by simp
    moreover have "\<not> tp_isHidden (inner_loop ax i (j + 1) ?ps' ! k)"
      using "1.prems"(5) unfold by simp
    ultimately have "\<not> doIntersect ax (tp_bounds (?ps' ! i)) (tp_bounds (?ps' ! k))"
      using "1.IH" [OF jlen] by blast
    then show ?thesis
      using compare_pair_bounds [OF ilen, of ax i j] compare_pair_bounds [OF "1.prems"(3), of ax i j]
      by simp
  qed
qed

text \<open>The outer loop.\<close>

lemma outer_loop_upto: "k \<le> i \<Longrightarrow> outer_loop ax i ps ! k = ps ! k"
proof (induction ax i ps rule: outer_loop.induct)
  case (1 ax i ps)
  show ?case
  proof (cases "i < length ps")
    case True
    have "outer_loop ax i ps ! k = outer_loop ax (i + 1) (inner_loop ax i (i + 1) ps) ! k"
      using True by (subst outer_loop.simps) simp
    also have "\<dots> = inner_loop ax i (i + 1) ps ! k"
      using "1.IH" [OF True] "1.prems" by simp
    also have "\<dots> = ps ! k"
      using "1.prems" by (simp add: inner_loop_below)
    finally show ?thesis .
  next
    case False
    then show ?thesis by (subst outer_loop.simps) simp
  qed
qed

lemma outer_loop_bounds:
  "k < length ps \<Longrightarrow> tp_bounds (outer_loop ax i ps ! k) = tp_bounds (ps ! k)"
proof (induction ax i ps rule: outer_loop.induct)
  case (1 ax i ps)
  show ?case
  proof (cases "i < length ps")
    case True
    have "tp_bounds (outer_loop ax i ps ! k)
        = tp_bounds (outer_loop ax (i + 1) (inner_loop ax i (i + 1) ps) ! k)"
      using True by (subst outer_loop.simps) simp
    also have "\<dots> = tp_bounds (inner_loop ax i (i + 1) ps ! k)"
      using "1.IH" [OF True] "1.prems" by simp
    also have "\<dots> = tp_bounds (ps ! k)"
      using "1.prems" by (rule inner_loop_bounds)
    finally show ?thesis .
  next
    case False
    then show ?thesis by (subst outer_loop.simps) simp
  qed
qed

lemma outer_loop_tick:
  "k < length ps \<Longrightarrow> tp_tick (outer_loop ax i ps ! k) = tp_tick (ps ! k)"
proof (induction ax i ps rule: outer_loop.induct)
  case (1 ax i ps)
  show ?case
  proof (cases "i < length ps")
    case True
    have "tp_tick (outer_loop ax i ps ! k)
        = tp_tick (outer_loop ax (i + 1) (inner_loop ax i (i + 1) ps) ! k)"
      using True by (subst outer_loop.simps) simp
    also have "\<dots> = tp_tick (inner_loop ax i (i + 1) ps ! k)"
      using "1.IH" [OF True] "1.prems" by simp
    also have "\<dots> = tp_tick (ps ! k)"
      using "1.prems" by (rule inner_loop_tick)
    finally show ?thesis .
  next
    case False
    then show ?thesis by (subst outer_loop.simps) simp
  qed
qed

lemma outer_loop_hidden_mono:
  "k < length ps \<Longrightarrow> tp_isHidden (ps ! k) \<Longrightarrow> tp_isHidden (outer_loop ax i ps ! k)"
proof (induction ax i ps rule: outer_loop.induct)
  case (1 ax i ps)
  show ?case
  proof (cases "i < length ps")
    case True
    have "tp_isHidden (inner_loop ax i (i + 1) ps ! k)"
      using "1.prems" by (rule inner_loop_hidden_mono)
    then have "tp_isHidden (outer_loop ax (i + 1) (inner_loop ax i (i + 1) ps) ! k)"
      using "1.IH" [OF True] "1.prems" by simp
    then show ?thesis
      using True by (subst outer_loop.simps) simp
  next
    case False
    with "1.prems" show ?thesis by (subst outer_loop.simps) simp
  qed
qed

lemma outer_loop_invariant:
  "i0 \<le> i \<Longrightarrow> i < k \<Longrightarrow> k < length ps \<Longrightarrow>
   \<not> tp_isHidden (outer_loop ax i0 ps ! i) \<Longrightarrow> \<not> tp_isHidden (outer_loop ax i0 ps ! k) \<Longrightarrow>
   \<not> doIntersect ax (tp_bounds (ps ! i)) (tp_bounds (ps ! k))"
proof (induction ax i0 ps rule: outer_loop.induct)
  case (1 ax i0 ps)
  from "1.prems" have i0len: "i0 < length ps" and ilen: "i < length ps" by simp_all
  let ?ps' = "inner_loop ax i0 (i0 + 1) ps"
  have unfold: "outer_loop ax i0 ps = outer_loop ax (i0 + 1) ?ps'"
    using i0len by (subst outer_loop.simps) simp
  show ?case
  proof (cases "i = i0")
    case True
    have "outer_loop ax (i0 + 1) ?ps' ! i0 = ?ps' ! i0"
      by (rule outer_loop_upto) simp
    with "1.prems"(4) unfold True have nh_i: "\<not> tp_isHidden (?ps' ! i0)" by simp
    have nh_k: "\<not> tp_isHidden (?ps' ! k)"
      using "1.prems"(5) unfold outer_loop_hidden_mono [of k ?ps' ax "i0 + 1"] "1.prems"(3)
      by auto
    have "\<not> doIntersect ax (tp_bounds (ps ! i0)) (tp_bounds (ps ! k))"
      using "1.prems"(2,3) nh_i nh_k True by (intro inner_loop_invariant [of i0 "i0 + 1" k]) auto
    with True show ?thesis by simp
  next
    case False
    with "1.prems" have "i0 + 1 \<le> i" by simp
    moreover have "k < length ?ps'" using "1.prems" by simp
    moreover have "\<not> tp_isHidden (outer_loop ax (i0 + 1) ?ps' ! i)"
      using "1.prems"(4) unfold by simp
    moreover have "\<not> tp_isHidden (outer_loop ax (i0 + 1) ?ps' ! k)"
      using "1.prems"(5) unfold by simp
    ultimately have "\<not> doIntersect ax (tp_bounds (?ps' ! i)) (tp_bounds (?ps' ! k))"
      using "1.IH" [OF i0len] "1.prems"(2) by blast
    then show ?thesis
      using inner_loop_bounds [OF ilen, of ax i0 "i0 + 1"]
        inner_loop_bounds [OF "1.prems"(3), of ax i0 "i0 + 1"]
      by simp
  qed
qed

lemma compare_pair_hidden_cause:
  assumes "k < length ps" and "tp_isHidden (compare_pair ax i j ps ! k)" and "\<not> tp_isHidden (ps ! k)"
  shows "k = j \<and> \<not> tp_isHidden (ps ! i) \<and> doIntersect ax (tp_bounds (ps ! i)) (tp_bounds (ps ! k))"
proof -
  have kj: "k = j"
  proof (rule ccontr)
    assume "k \<noteq> j"
    then have "compare_pair ax i j ps ! k = ps ! k" by (rule compare_pair_other)
    with assms(2,3) show False by simp
  qed
  have "compare_pair ax i j ps \<noteq> ps"
    using assms(2,3) by auto
  then have "\<not> tp_isHidden (ps ! i) \<and> doIntersect ax (tp_bounds (ps ! i)) (tp_bounds (ps ! j))"
    by (auto simp: compare_pair_def Let_def split: if_splits)
  with kj show ?thesis by simp
qed

lemma inner_loop_hidden_cause:
  "i < j \<Longrightarrow> k < length ps \<Longrightarrow> tp_isHidden (inner_loop ax i j ps ! k) \<Longrightarrow> \<not> tp_isHidden (ps ! k) \<Longrightarrow>
   j \<le> k \<and> \<not> tp_isHidden (ps ! i) \<and> doIntersect ax (tp_bounds (ps ! i)) (tp_bounds (ps ! k))"
proof (induction ax i j ps rule: inner_loop.induct)
  case (1 ax i j ps)
  have jlen: "j < length ps"
  proof (rule ccontr)
    assume "\<not> j < length ps"
    then have "inner_loop ax i j ps = ps" by (subst inner_loop.simps) simp
    with "1.prems"(3,4) show False by simp
  qed
  let ?ps' = "compare_pair ax i j ps"
  have unfold: "inner_loop ax i j ps = inner_loop ax i (j + 1) ?ps'"
    using jlen by (subst inner_loop.simps) simp
  have same_i: "?ps' ! i = ps ! i"
    using "1.prems"(1) by (simp add: compare_pair_other)
  show ?case
  proof (cases "tp_isHidden (?ps' ! k)")
    case True
    from compare_pair_hidden_cause [OF "1.prems"(2) True "1.prems"(4)]
    show ?thesis by auto
  next
    case False
    have "j + 1 \<le> k \<and> \<not> tp_isHidden (?ps' ! i)
          \<and> doIntersect ax (tp_bounds (?ps' ! i)) (tp_bounds (?ps' ! k))"
      using "1.IH" [OF jlen] "1.prems"(1,2,3) False unfold by simp
    then show ?thesis
      using same_i compare_pair_bounds [OF "1.prems"(2), of ax i j] by simp
  qed
qed

lemma outer_loop_hidden_cause:
  "k < length ps \<Longrightarrow> tp_isHidden (outer_loop ax i0 ps ! k) \<Longrightarrow> \<not> tp_isHidden (ps ! k) \<Longrightarrow>
   \<exists>i. i0 \<le> i \<and> i < k \<and> \<not> tp_isHidden (outer_loop ax i0 ps ! i)
        \<and> doIntersect ax (tp_bounds (ps ! i)) (tp_bounds (ps ! k))"
proof (induction ax i0 ps rule: outer_loop.induct)
  case (1 ax i0 ps)
  have i0len: "i0 < length ps"
  proof (rule ccontr)
    assume "\<not> i0 < length ps"
    then have "outer_loop ax i0 ps = ps" by (subst outer_loop.simps) simp
    with "1.prems"(2,3) show False by simp
  qed
  let ?ps' = "inner_loop ax i0 (i0 + 1) ps"
  have unfold: "outer_loop ax i0 ps = outer_loop ax (i0 + 1) ?ps'"
    using i0len by (subst outer_loop.simps) simp
  show ?case
  proof (cases "tp_isHidden (?ps' ! k)")
    case True
    have c: "i0 + 1 \<le> k \<and> \<not> tp_isHidden (ps ! i0)
             \<and> doIntersect ax (tp_bounds (ps ! i0)) (tp_bounds (ps ! k))"
      using "1.prems"(1,3) True by (intro inner_loop_hidden_cause) simp_all
    have "outer_loop ax (i0 + 1) ?ps' ! i0 = ?ps' ! i0"
      by (rule outer_loop_upto) simp
    also have "\<dots> = ps ! i0"
      by (rule inner_loop_below) simp
    finally have "\<not> tp_isHidden (outer_loop ax i0 ps ! i0)"
      using c unfold by simp
    with c show ?thesis by (intro exI [of _ i0]) simp
  next
    case False
    have "\<exists>i. i0 + 1 \<le> i \<and> i < k \<and> \<not> tp_isHidden (outer_loop ax (i0 + 1) ?ps' ! i)
             \<and> doIntersect ax (tp_bounds (?ps' ! i)) (tp_bounds (?ps' ! k))"
      using "1.IH" [OF i0len] "1.prems"(1,2) False unfold by simp
    then obtain i where i: "i0 + 1 \<le> i" "i < k"
        "\<not> tp_isHidden (outer_loop ax (i0 + 1) ?ps' ! i)"
        "doIntersect ax (tp_bounds (?ps' ! i)) (tp_bounds (?ps' ! k))"
      by blast
    have ilen: "i < length ps" using i(2) "1.prems"(1) by simp
    have "doIntersect ax (tp_bounds (ps ! i)) (tp_bounds (ps ! k))"
      using i(4) inner_loop_bounds [OF ilen, of ax i0 "i0 + 1"]
        inner_loop_bounds [OF "1.prems"(1), of ax i0 "i0 + 1"] by simp
    with i unfold show ?thesis by (intro exI [of _ i]) simp
  qed
qed

lemma sortedTicks_sorted: "sorted (map (\<lambda>tick. tm_priority (snd tick)) (sortedTicks E ax A))"
  by (simp add: sortedTicks_def sortBy_def)

lemma sortedTicks_stable:
  "filter (\<lambda>tick. tm_priority (snd tick) = p) (sortedTicks E ax A)
     = filter (\<lambda>tick. tm_priority (snd tick) = p) (baseTicks E ax A)"
  unfolding sortedTicks_def sortBy_def by (rule sort_key_stable)

lemma sortedTicks_priority_mono:
  "i \<le> j \<Longrightarrow> j < length (sortedTicks E ax A) \<Longrightarrow>
   tm_priority (snd (sortedTicks E ax A ! i)) \<le> tm_priority (snd (sortedTicks E ax A ! j))"
  using sorted_nth_mono [OF sortedTicks_sorted, of i j E ax A] by simp

lemma length_tickPlacements [simp]: "length (tickPlacements E ax A) = length (sortedTicks E ax A)"
  by (simp add: tickPlacements_def)

lemma length_collisionPass [simp]: "length (collisionPass E ax A) = length (sortedTicks E ax A)"
  by (simp add: collisionPass_def)

lemma tickPlacements_not_hidden:
  "k < length (sortedTicks E ax A) \<Longrightarrow> \<not> tp_isHidden (tickPlacements E ax A ! k)"
  by (simp add: tickPlacements_def mkPlacement_def Let_def)

lemma collisionPass_ordered_free:
  assumes "i < k" and "k < length (collisionPass E ax A)"
    and "\<not> tp_isHidden (collisionPass E ax A ! i)" and "\<not> tp_isHidden (collisionPass E ax A ! k)"
  shows "\<not> doIntersect ax (tp_bounds (collisionPass E ax A ! i)) (tp_bounds (collisionPass E ax A ! k))"
proof -
  let ?ps = "tickPlacements E ax A"
  have len: "k < length ?ps" "i < length ?ps"
    using assms(1,2) by (simp_all add: collisionPass_def)
  have "\<not> doIntersect ax (tp_bounds (?ps ! i)) (tp_bounds (?ps ! k))"
    using assms len by (intro outer_loop_invariant [of 0 i k ?ps ax]) (simp_all add: collisionPass_def)
  then show ?thesis
    using len by (simp add: collisionPass_def outer_loop_bounds)
qed

lemma surviving_sorted_wrt:
  "sorted_wrt (\<lambda>a b. \<not> doIntersect ax (tp_bounds a) (tp_bounds b)) (surviving E ax A)"
proof -
  let ?Q = "\<lambda>a b. \<not> tp_isHidden a \<and> \<not> tp_isHidden b \<longrightarrow> \<not> doIntersect ax (tp_bounds a) (tp_bounds b)"
  have "sorted_wrt ?Q (collisionPass E ax A)"
    unfolding sorted_wrt_iff_nth_less using collisionPass_ordered_free by blast
  then have "sorted_wrt ?Q (surviving E ax A)"
    unfolding surviving_def by (rule sorted_wrt_filter)
  moreover have "\<forall>t \<in> set (surviving E ax A). \<not> tp_isHidden t"
    by (simp add: surviving_def)
  ultimately show ?thesis
    by (auto intro: sorted_wrt_mono_rel [rotated])
qed

subsection \<open>A worked axis\<close>

text \<open>
  A horizontal linear axis over the domain \<open>[0, 100]\<close>, mapped one pixel per unit, whose
  scale proposes ticks at 0, 50, 100 and 60 with priorities 1, 2, 1 and 3 and whose
  labels all measure 40 by 10 pixels.
\<close>

definition example_tick :: "real \<Rightarrow> nat \<Rightarrow> Tickmark" where
  "example_tick v p = \<lparr>tm_value = v, tm_priority = p, tm_isFirstOrLastTick = False,
      tm_gridLineOnly = False, tm_faint = False\<rparr>"

definition example_services :: services where
  "example_services =
     \<lparr>forText = (\<lambda>s fontSize. \<lparr>b_x = 0, b_y = 0, b_width = 40, b_height = 10\<rparr>),
      wrapHeight = (\<lambda>maxWidth fontSize text. 12),
      getTickValues = (\<lambda>S. [(0, example_tick 0 1), (1, example_tick 50 2),
                             (2, example_tick 100 1), (3, example_tick 60 3)]),
      getFormattedTicks = (\<lambda>S. [''0'', ''50'', ''100'', ''60'']),
      tickFormat = (\<lambda>S v isFirstOrLast. ''0''),
      place = (\<lambda>S v. v),
      rangeSize = (\<lambda>S. \<bar>snd (scale_range S) - fst (scale_range S)\<bar>)\<rparr>"

definition example_spec :: "real AxisSpec" where
  "example_spec = \<lparr>spec_scaleType = Linear, spec_scaleTypeOptions = [Linear], spec_label = '''',
      spec_domain = (0, 100), spec_hideFractionalTicks = False, spec_hideGridlines = False\<rparr>"

definition example_axis :: AxisProps where
  "example_axis = \<lparr>ax_scale = AxisScale_clone example_spec (0, 100), ax_labelText = '''',
      ax_fontSize = 16\<rparr>"

definition example_placement :: "real \<Rightarrow> real \<Rightarrow> bool \<Rightarrow> TickPlacement" where
  "example_placement v x h =
     \<lparr>tp_tick = v, tp_bounds = \<lparr>b_x = x, b_y = 10, b_width = 40, b_height = 10\<rparr>, tp_isHidden = h\<rparr>"

lemma isWhole_0 [simp]: "isWhole 0"
  by (simp add: isWhole_def)

lemma example_sortedTicks:
  "sortedTicks example_services Horizontal example_axis =
     [(StartTick, \<lparr>tm_value = 0, tm_priority = 1, tm_isFirstOrLastTick = True,
         tm_gridLineOnly = False, tm_faint = False\<rparr>),
      (ScaleTick 0, example_tick 0 1), (ScaleTick 2, example_tick 100 1),
      (ScaleTick 1, example_tick 50 2), (ScaleTick 3, example_tick 60 3)]"
  by (simp add: sortedTicks_def sortBy_def HorizontalAxis_baseTicks_def AbstractAxis_baseTicks_def
      example_services_def example_axis_def example_spec_def AxisScale_clone_def example_tick_def
      endpointTick_def startEndPrio_def Let_def)

lemma example_tickPlacements:
  "tickPlacements example_services Horizontal example_axis =
     [example_placement 0 (- 20) False, example_placement 0 (- 20) False,
      example_placement 100 80 False, example_placement 50 30 False,
      example_placement 60 40 False]"
  unfolding tickPlacements_def example_sortedTicks
  by (simp add: mkPlacement_def example_services_def example_axis_def example_placement_def
      example_tick_def extend_xy_def bottom_def label_height_def Let_def)

lemma example_collisionPass:
  "collisionPass example_services Horizontal example_axis =
     [example_placement 0 (- 20) False, example_placement 0 (- 20) True,
      example_placement 100 80 False, example_placement 50 30 False,
      example_placement 60 40 True]"
  unfolding collisionPass_def example_tickPlacements
  by (simp add: outer_loop.simps inner_loop.simps compare_pair_def Let_def example_placement_def
      intersects_def padWidth_def left_def right_def top_y_def bottom_def)

lemma example_surviving:
  "surviving example_services Horizontal example_axis =
     [example_placement 0 (- 20) False, example_placement 100 80 False,
      example_placement 50 30 False]"
  unfolding surviving_def example_collisionPass by (simp add: example_placement_def)

text \<open>
  C1. For either axis and every list of tick candidates, no two distinct placements that
  survive the collision pass have bounds that intersect under the test of that axis (the
  padded test on the horizontal axis); the returned ticks are the values of exactly these
  survivors, sorted.
\<close>

theorem ticks_pairwise_overlap_free:
  "(\<forall>i j. i < length (surviving E ax A) \<longrightarrow> j < length (surviving E ax A) \<longrightarrow> i \<noteq> j \<longrightarrow>
      \<not> doIntersect ax (tp_bounds (surviving E ax A ! i)) (tp_bounds (surviving E ax A ! j)))
   \<and> ticks E ax A = sort (map tp_tick (surviving E ax A))"
proof -
  have ordered: "\<not> doIntersect ax (tp_bounds (surviving E ax A ! i)) (tp_bounds (surviving E ax A ! j))"
    if "i < j" "j < length (surviving E ax A)" for i j
    using surviving_sorted_wrt [of ax E A] that by (simp add: sorted_wrt_iff_nth_less)
  have "\<not> doIntersect ax (tp_bounds (surviving E ax A ! i)) (tp_bounds (surviving E ax A ! j))"
    if "i < length (surviving E ax A)" "j < length (surviving E ax A)" "i \<noteq> j" for i j
  proof (cases "i < j")
    case True
    with that show ?thesis by (simp add: ordered)
  next
    case False
    with that have "j < i" by simp
    then have "\<not> doIntersect ax (tp_bounds (surviving E ax A ! j)) (tp_bounds (surviving E ax A ! i))"
      using that by (simp add: ordered)
    then show ?thesis by (subst doIntersect_sym)
  qed
  then show ?thesis by (simp add: ticks_def)
qed

theorem ticks_pairwise_overlap_free_witness:
  "length (surviving example_services Horizontal example_axis) = 3
   \<and> \<not> doIntersect Horizontal
        (tp_bounds (surviving example_services Horizontal example_axis ! 2))
        (tp_bounds (surviving example_services Horizontal example_axis ! 0))
   \<and> ticks example_services Horizontal example_axis = [0, 50, 100]"
proof -
  have len: "length (surviving example_services Horizontal example_axis) = 3"
    by (simp add: example_surviving)
  have "\<not> doIntersect Horizontal
        (tp_bounds (surviving example_services Horizontal example_axis ! 2))
        (tp_bounds (surviving example_services Horizontal example_axis ! 0))"
    using ticks_pairwise_overlap_free [of example_services Horizontal example_axis] len by simp
  moreover have "ticks example_services Horizontal example_axis = [0, 50, 100]"
    using ticks_pairwise_overlap_free [of example_services Horizontal example_axis]
    by (simp add: example_surviving example_placement_def)
  ultimately show ?thesis using len by simp
qed

text \<open>The placement at index \<open>k\<close> is, throughout the pass, that of the \<open>k\<close>-th sorted tick.\<close>

lemma mkPlacement_tick: "tp_tick (mkPlacement E ax A t) = tm_value (snd t)"
  by (simp add: mkPlacement_def Let_def)

lemma collisionPass_placement:
  assumes "k < length (sortedTicks E ax A)"
  shows "tp_tick (collisionPass E ax A ! k) = tm_value (snd (sortedTicks E ax A ! k))
       \<and> tp_bounds (collisionPass E ax A ! k)
           = tp_bounds (mkPlacement E ax A (sortedTicks E ax A ! k))"
proof -
  have k: "k < length (tickPlacements E ax A)" using assms by simp
  have "tickPlacements E ax A ! k = mkPlacement E ax A (sortedTicks E ax A ! k)"
    using assms by (simp add: tickPlacements_def)
  then show ?thesis
    using k by (simp add: collisionPass_def outer_loop_tick outer_loop_bounds mkPlacement_tick)
qed

lemma sortedTicks_priority_less_index:
  assumes "i < length (sortedTicks E ax A)" and "j < length (sortedTicks E ax A)"
    and "tm_priority (snd (sortedTicks E ax A ! i)) < tm_priority (snd (sortedTicks E ax A ! j))"
  shows "i < j"
proof (rule ccontr)
  assume "\<not> i < j"
  then have "j \<le> i" by simp
  then have "tm_priority (snd (sortedTicks E ax A ! j)) \<le> tm_priority (snd (sortedTicks E ax A ! i))"
    using assms(1) by (rule sortedTicks_priority_mono)
  with assms(3) show False by simp
qed

text \<open>
  C2. The collision pass runs over the placements of the candidates sorted ascending by
  priority number, ties in the original candidate order: placement \<open>k\<close> is the placement
  of the \<open>k\<close>-th sorted candidate before, during and after the pass, and a candidate of
  strictly smaller priority number stands at a smaller index. Whenever the pass compares
  two placements of different priority that intersect and of which neither is hidden
  yet, the one with the strictly larger priority number is marked hidden and the one with
  the smaller number stays visible. After the pass, a visible placement has hidden every
  later placement it intersects, and a hidden placement was hidden by a placement that
  survives and whose priority number is not larger: never the reverse.
\<close>

theorem collision_hides_larger_priority:
  "tickPlacements E ax A = map (mkPlacement E ax A) (sortedTicks E ax A)
   \<and> sorted (map (\<lambda>tick. tm_priority (snd tick)) (sortedTicks E ax A))
   \<and> (\<forall>p. filter (\<lambda>tick. tm_priority (snd tick) = p) (sortedTicks E ax A)
          = filter (\<lambda>tick. tm_priority (snd tick) = p) (baseTicks E ax A))
   \<and> (\<forall>k. k < length (sortedTicks E ax A) \<longrightarrow>
        tp_tick (collisionPass E ax A ! k) = tm_value (snd (sortedTicks E ax A ! k))
        \<and> tp_bounds (collisionPass E ax A ! k)
            = tp_bounds (mkPlacement E ax A (sortedTicks E ax A ! k)))
   \<and> (\<forall>i j. i < length (sortedTicks E ax A) \<longrightarrow> j < length (sortedTicks E ax A) \<longrightarrow>
        tm_priority (snd (sortedTicks E ax A ! i)) < tm_priority (snd (sortedTicks E ax A ! j)) \<longrightarrow>
        i < j)
   \<and> (\<forall>ps i j. length ps = length (sortedTicks E ax A) \<longrightarrow>
        (\<forall>k<length ps. tp_tick (ps ! k) = tm_value (snd (sortedTicks E ax A ! k))
           \<and> tp_bounds (ps ! k) = tp_bounds (mkPlacement E ax A (sortedTicks E ax A ! k))) \<longrightarrow>
        i < j \<longrightarrow> j < length ps \<longrightarrow>
        tm_priority (snd (sortedTicks E ax A ! i)) \<noteq> tm_priority (snd (sortedTicks E ax A ! j)) \<longrightarrow>
        \<not> tp_isHidden (ps ! i) \<longrightarrow> \<not> tp_isHidden (ps ! j) \<longrightarrow>
        doIntersect ax (tp_bounds (mkPlacement E ax A (sortedTicks E ax A ! i)))
                       (tp_bounds (mkPlacement E ax A (sortedTicks E ax A ! j))) \<longrightarrow>
          tm_priority (snd (sortedTicks E ax A ! i)) < tm_priority (snd (sortedTicks E ax A ! j))
          \<and> tp_isHidden (compare_pair ax i j ps ! j)
          \<and> \<not> tp_isHidden (compare_pair ax i j ps ! i)
          \<and> (\<forall>k<length ps. tp_tick (compare_pair ax i j ps ! k) = tm_value (snd (sortedTicks E ax A ! k))
               \<and> tp_bounds (compare_pair ax i j ps ! k)
                   = tp_bounds (mkPlacement E ax A (sortedTicks E ax A ! k))))
   \<and> (\<forall>i j. i < j \<longrightarrow> j < length (sortedTicks E ax A) \<longrightarrow>
        \<not> tp_isHidden (collisionPass E ax A ! i) \<longrightarrow>
        doIntersect ax (tp_bounds (mkPlacement E ax A (sortedTicks E ax A ! i)))
                       (tp_bounds (mkPlacement E ax A (sortedTicks E ax A ! j))) \<longrightarrow>
        tp_isHidden (collisionPass E ax A ! j))
   \<and> (\<forall>k. k < length (sortedTicks E ax A) \<longrightarrow> tp_isHidden (collisionPass E ax A ! k) \<longrightarrow>
        (\<exists>i<k. \<not> tp_isHidden (collisionPass E ax A ! i)
           \<and> doIntersect ax (tp_bounds (mkPlacement E ax A (sortedTicks E ax A ! i)))
                            (tp_bounds (mkPlacement E ax A (sortedTicks E ax A ! k)))
           \<and> tm_priority (snd (sortedTicks E ax A ! i)) \<le> tm_priority (snd (sortedTicks E ax A ! k))))"
proof -
  let ?ts = "sortedTicks E ax A"
  let ?R = "collisionPass E ax A"
  let ?b = "\<lambda>k. tp_bounds (mkPlacement E ax A (?ts ! k))"
  let ?prio = "\<lambda>k. tm_priority (snd (?ts ! k))"
  have c1: "tickPlacements E ax A = map (mkPlacement E ax A) ?ts"
    by (simp add: tickPlacements_def)
  have c2: "sorted (map (\<lambda>tick. tm_priority (snd tick)) ?ts)"
    by (rule sortedTicks_sorted)
  have c3: "filter (\<lambda>tick. tm_priority (snd tick) = p) ?ts
      = filter (\<lambda>tick. tm_priority (snd tick) = p) (baseTicks E ax A)" for p
    by (rule sortedTicks_stable)
  have c4: "tp_tick (?R ! k) = tm_value (snd (?ts ! k)) \<and> tp_bounds (?R ! k) = ?b k"
    if "k < length ?ts" for k
    using that by (rule collisionPass_placement)
  have c5: "i < j" if "i < length ?ts" "j < length ?ts" "?prio i < ?prio j" for i j
    using that by (rule sortedTicks_priority_less_index)
  have c6: "?prio i < ?prio j \<and> tp_isHidden (compare_pair ax i j ps ! j)
        \<and> \<not> tp_isHidden (compare_pair ax i j ps ! i)
        \<and> (\<forall>k<length ps. tp_tick (compare_pair ax i j ps ! k) = tm_value (snd (?ts ! k))
             \<and> tp_bounds (compare_pair ax i j ps ! k) = ?b k)"
    if len: "length ps = length ?ts"
      and link: "\<forall>k<length ps. tp_tick (ps ! k) = tm_value (snd (?ts ! k)) \<and> tp_bounds (ps ! k) = ?b k"
      and ij: "i < j" and j: "j < length ps" and ne: "?prio i \<noteq> ?prio j"
      and nh: "\<not> tp_isHidden (ps ! i)" "\<not> tp_isHidden (ps ! j)"
      and hit: "doIntersect ax (?b i) (?b j)"
    for ps :: "TickPlacement list" and i j
  proof -
    have "?prio i \<le> ?prio j"
      using ij j len by (intro sortedTicks_priority_mono) simp_all
    with ne have lt: "?prio i < ?prio j" by simp
    have i: "i < length ps" using ij j by simp
    have "doIntersect ax (tp_bounds (ps ! i)) (tp_bounds (ps ! j))"
      using hit link i j by simp
    then have hid: "tp_isHidden (compare_pair ax i j ps ! j)"
      using ij j nh by (intro compare_pair_hides) simp_all
    have vis: "\<not> tp_isHidden (compare_pair ax i j ps ! i)"
      using ij nh(1) by (simp add: compare_pair_other)
    have keep: "\<forall>k<length ps. tp_tick (compare_pair ax i j ps ! k) = tm_value (snd (?ts ! k))
             \<and> tp_bounds (compare_pair ax i j ps ! k) = ?b k"
      using link by (simp add: compare_pair_tick compare_pair_bounds)
    from lt hid vis keep show ?thesis by blast
  qed
  have c7: "tp_isHidden (?R ! j)"
    if "i < j" "j < length ?ts" "\<not> tp_isHidden (?R ! i)" "doIntersect ax (?b i) (?b j)" for i j
  proof (rule ccontr)
    assume "\<not> tp_isHidden (?R ! j)"
    with that have "\<not> doIntersect ax (tp_bounds (?R ! i)) (tp_bounds (?R ! j))"
      by (intro collisionPass_ordered_free) simp_all
    moreover have "tp_bounds (?R ! i) = ?b i" "tp_bounds (?R ! j) = ?b j"
      using c4 [of i] c4 [of j] that(1,2) by simp_all
    ultimately show False using that(4) by simp
  qed
  have c8: "\<exists>i<k. \<not> tp_isHidden (?R ! i) \<and> doIntersect ax (?b i) (?b k) \<and> ?prio i \<le> ?prio k"
    if k: "k < length ?ts" and hid: "tp_isHidden (?R ! k)" for k
  proof -
    let ?ps = "tickPlacements E ax A"
    have klen: "k < length ?ps" using k by simp
    have "\<not> tp_isHidden (?ps ! k)"
      using k by (simp add: tickPlacements_not_hidden)
    with hid klen obtain i where i: "i < k" "\<not> tp_isHidden (outer_loop ax 0 ?ps ! i)"
        "doIntersect ax (tp_bounds (?ps ! i)) (tp_bounds (?ps ! k))"
      using outer_loop_hidden_cause [of k ?ps ax 0] unfolding collisionPass_def by blast
    have ilen: "i < length ?ts" using i(1) k by simp
    have "doIntersect ax (?b i) (?b k)"
      using i(3) ilen k by (simp add: tickPlacements_def)
    moreover have "?prio i \<le> ?prio k"
      using i(1) k by (intro sortedTicks_priority_mono) simp_all
    ultimately show ?thesis
      using i(1,2) unfolding collisionPass_def by blast
  qed
  from c1 c2 c3 c4 c5 c6 c7 c8 show ?thesis by blast
qed

theorem collision_hides_larger_priority_witness:
  "tm_priority (snd (sortedTicks example_services Horizontal example_axis ! 3))
     < tm_priority (snd (sortedTicks example_services Horizontal example_axis ! 4))
   \<and> tp_isHidden (compare_pair Horizontal 3 4
        (tickPlacements example_services Horizontal example_axis) ! 4)
   \<and> \<not> tp_isHidden (compare_pair Horizontal 3 4
        (tickPlacements example_services Horizontal example_axis) ! 3)
   \<and> tp_tick (collisionPass example_services Horizontal example_axis ! 4) = 60
   \<and> tp_isHidden (collisionPass example_services Horizontal example_axis ! 4)
   \<and> tp_tick (collisionPass example_services Horizontal example_axis ! 3) = 50
   \<and> \<not> tp_isHidden (collisionPass example_services Horizontal example_axis ! 3)"
proof -
  let ?E = example_services and ?A = example_axis
  let ?ts = "sortedTicks ?E Horizontal ?A"
  let ?ps = "tickPlacements ?E Horizontal ?A"
  note c2 = collision_hides_larger_priority [of ?E Horizontal ?A]
  have 1: "length ?ps = length ?ts"
    by simp
  have 2: "\<forall>k<length ?ps. tp_tick (?ps ! k) = tm_value (snd (?ts ! k))
             \<and> tp_bounds (?ps ! k) = tp_bounds (mkPlacement ?E Horizontal ?A (?ts ! k))"
    by (simp add: tickPlacements_def mkPlacement_tick)
  have 3: "(3::nat) < 4" and 4: "4 < length ?ps"
    by (simp_all add: example_sortedTicks)
  have 5: "tm_priority (snd (?ts ! 3)) \<noteq> tm_priority (snd (?ts ! 4))"
    by (simp add: example_sortedTicks example_tick_def)
  have 6: "\<not> tp_isHidden (?ps ! 3)" and 7: "\<not> tp_isHidden (?ps ! 4)"
    by (simp_all add: example_tickPlacements example_placement_def)
  have b: "tp_bounds (mkPlacement ?E Horizontal ?A (?ts ! 3)) = tp_bounds (?ps ! 3)"
      "tp_bounds (mkPlacement ?E Horizontal ?A (?ts ! 4)) = tp_bounds (?ps ! 4)"
    using 4 by (simp_all add: tickPlacements_def)
  have 8: "doIntersect Horizontal (tp_bounds (mkPlacement ?E Horizontal ?A (?ts ! 3)))
                                 (tp_bounds (mkPlacement ?E Horizontal ?A (?ts ! 4)))"
    unfolding b
    by (simp add: example_tickPlacements example_placement_def intersects_def padWidth_def
        left_def right_def top_y_def bottom_def)
  have step: "tm_priority (snd (?ts ! 3)) < tm_priority (snd (?ts ! 4))
      \<and> tp_isHidden (compare_pair Horizontal 3 4 ?ps ! 4)
      \<and> \<not> tp_isHidden (compare_pair Horizontal 3 4 ?ps ! 3)"
    using c2 [THEN conjunct2, THEN conjunct2, THEN conjunct2, THEN conjunct2, THEN conjunct2,
        THEN conjunct1, THEN spec [where x = "?ps"], THEN spec [where x = "3::nat"],
        THEN spec [where x = "4::nat"], THEN mp, OF 1, THEN mp, OF 2, THEN mp, OF 3,
        THEN mp, OF 4, THEN mp, OF 5, THEN mp, OF 6, THEN mp, OF 7, THEN mp, OF 8]
    by blast
  have final: "tp_tick (collisionPass ?E Horizontal ?A ! 4) = 60
      \<and> tp_isHidden (collisionPass ?E Horizontal ?A ! 4)
      \<and> tp_tick (collisionPass ?E Horizontal ?A ! 3) = 50
      \<and> \<not> tp_isHidden (collisionPass ?E Horizontal ?A ! 3)"
    by (simp add: example_collisionPass example_placement_def)
  from step final show ?thesis by simp
qed

section \<open>The tick candidates of the horizontal axis\<close>

text \<open>What \<open>uniq\<close> does to a list of tick objects.\<close>

lemma uniq_subset: "set (uniq xs) \<subseteq> set xs"
  by (induction xs) auto

lemma uniq_refs: "fst ` set (uniq xs) = fst ` set xs"
proof (induction xs)
  case Nil
  then show ?case by simp
next
  case (Cons t ts)
  have "fst ` set (uniq (t # ts)) = insert (fst t) (fst ` set (uniq ts) - {fst t})"
    by auto
  also have "\<dots> = insert (fst t) (fst ` set ts)"
    using Cons.IH by auto
  finally show ?case by simp
qed

lemma uniq_distinct: "distinct (map fst (uniq xs))"
proof (induction xs)
  case Nil
  then show ?case by simp
next
  case (Cons t ts)
  have "distinct (map fst (filter (\<lambda>u. fst u \<noteq> fst t) (uniq ts)))"
    using Cons.IH by (simp add: distinct_map_filter)
  then show ?case by auto
qed

lemma uniq_keeps:
  assumes "x \<in> set xs" and "\<forall>y \<in> set xs. fst y = fst x \<longrightarrow> y = x"
  shows "x \<in> set (uniq xs)"
proof -
  from assms(1) have "fst x \<in> fst ` set (uniq xs)"
    unfolding uniq_refs by (rule imageI)
  then obtain y where y: "y \<in> set (uniq xs)" "fst y = fst x" by auto
  with uniq_subset [of xs] have "y \<in> set xs" by auto
  with assms(2) y show ?thesis by auto
qed

lemma AbstractAxis_baseTicks_refs:
  "y \<in> set (AbstractAxis_baseTicks E A) \<Longrightarrow> \<exists>n. fst y = ScaleTick n"
  by (auto simp: AbstractAxis_baseTicks_def)

lemma endpointTick_fields:
  "tm_value (endpointTick S v) = v \<and> tm_isFirstOrLastTick (endpointTick S v)
   \<and> tm_priority (endpointTick S v) = (if spec_scaleType (scale_spec S) = Log then 2 else 1)"
  by (simp add: endpointTick_def startEndPrio_def)

text \<open>
  C4 (as amended). On a horizontal axis whose domain minimum is a whole number,
  \<open>baseTicks\<close> starts with a synthetic candidate at the domain minimum; when the domain
  maximum is a whole number and the scale has \<open>hideFractionalTicks\<close> set, it contains a
  synthetic candidate at the domain maximum, and without \<open>hideFractionalTicks\<close> it
  contains no such synthetic end candidate. Each synthetic candidate is flagged
  \<open>isFirstOrLastTick\<close> and has priority 2 on a log scale and 1 on a linear one.
\<close>

theorem HorizontalAxis_baseTicks_endpoints:
  "(isWhole (fst (spec_domain (scale_spec (ax_scale A)))) \<longrightarrow>
      baseTicks E Horizontal A \<noteq> [] \<and>
      hd (baseTicks E Horizontal A)
        = (StartTick, endpointTick (ax_scale A) (fst (spec_domain (scale_spec (ax_scale A))))))
   \<and> (isWhole (snd (spec_domain (scale_spec (ax_scale A))))
        \<and> spec_hideFractionalTicks (scale_spec (ax_scale A)) \<longrightarrow>
      (EndTick, endpointTick (ax_scale A) (snd (spec_domain (scale_spec (ax_scale A)))))
        \<in> set (baseTicks E Horizontal A))
   \<and> (\<not> spec_hideFractionalTicks (scale_spec (ax_scale A)) \<longrightarrow>
      EndTick \<notin> fst ` set (baseTicks E Horizontal A))
   \<and> tm_value (endpointTick (ax_scale A) v) = v
   \<and> tm_isFirstOrLastTick (endpointTick (ax_scale A) v)
   \<and> tm_priority (endpointTick (ax_scale A) v)
        = (if spec_scaleType (scale_spec (ax_scale A)) = Log then 2 else 1)"
proof -
  let ?S = "ax_scale A"
  let ?d = "spec_domain (scale_spec ?S)"
  let ?base = "AbstractAxis_baseTicks E A"
  let ?withStart = "if isWhole (fst ?d) then (StartTick, endpointTick ?S (fst ?d)) # ?base else ?base"
  let ?withEnd = "if isWhole (snd ?d) \<and> spec_hideFractionalTicks (scale_spec ?S)
                  then ?withStart @ [(EndTick, endpointTick ?S (snd ?d))] else ?withStart"
  have bt: "baseTicks E Horizontal A = uniq ?withEnd"
    by (simp add: HorizontalAxis_baseTicks_def Let_def)
  have start: "baseTicks E Horizontal A \<noteq> [] \<and>
      hd (baseTicks E Horizontal A) = (StartTick, endpointTick ?S (fst ?d))"
    if "isWhole (fst ?d)"
    unfolding bt using that by simp
  have no_end: "fst y \<noteq> EndTick" if "y \<in> set ?withStart" for y
    using that AbstractAxis_baseTicks_refs [of y E A] by (auto split: if_splits)
  have "(EndTick, endpointTick ?S (snd ?d)) \<in> set (uniq ?withEnd)"
    if "isWhole (snd ?d) \<and> spec_hideFractionalTicks (scale_spec ?S)"
  proof (rule uniq_keeps)
    show "(EndTick, endpointTick ?S (snd ?d)) \<in> set ?withEnd"
      using that by simp
    show "\<forall>y\<in>set ?withEnd. fst y = fst (EndTick, endpointTick ?S (snd ?d))
            \<longrightarrow> y = (EndTick, endpointTick ?S (snd ?d))"
      using that no_end by auto
  qed
  then have "end": "(EndTick, endpointTick ?S (snd ?d)) \<in> set (baseTicks E Horizontal A)"
    if "isWhole (snd ?d) \<and> spec_hideFractionalTicks (scale_spec ?S)"
    using that unfolding bt by blast
  have absent: "EndTick \<notin> fst ` set (baseTicks E Horizontal A)"
    if "\<not> spec_hideFractionalTicks (scale_spec ?S)"
  proof -
    have "fst ` set (baseTicks E Horizontal A) = fst ` set ?withStart"
      unfolding bt uniq_refs using that by simp
    then show ?thesis using no_end by force
  qed
  from start "end" absent endpointTick_fields [of ?S v] show ?thesis by blast
qed

text \<open>
  A log axis over \<open>[1, 1000]\<close> with \<open>hideFractionalTicks\<close> set, and a linear axis over
  \<open>[0, 12]\<close> without it whose scale proposes ticks at 0, 5 and 10.
\<close>

definition example_axis_log :: AxisProps where
  "example_axis_log =
     \<lparr>ax_scale = AxisScale_clone (example_spec\<lparr>spec_scaleType := Log, spec_domain := (1, 1000),
          spec_hideFractionalTicks := True\<rparr>) (0, 300),
      ax_labelText = '''', ax_fontSize = 16\<rparr>"

definition example_scale_12 :: AxisScale where
  "example_scale_12 = AxisScale_clone (example_spec\<lparr>spec_domain := (0, 12)\<rparr>) (0, 120)"

definition example_services_12 :: services where
  "example_services_12 = example_services\<lparr>getTickValues :=
      (\<lambda>S. [(0, example_tick 0 2), (1, example_tick 5 2), (2, example_tick 10 2)])\<rparr>"

definition example_axis_12 :: AxisProps where
  "example_axis_12 = \<lparr>ax_scale = example_scale_12, ax_labelText = '''', ax_fontSize = 16\<rparr>"

lemma example_tick_not_gridLineOnly [simp]: "\<not> tm_gridLineOnly (example_tick v p)"
  by (simp add: example_tick_def)

lemma example_baseTicks_12:
  "baseTicks example_services_12 Horizontal example_axis_12
     = [(StartTick, endpointTick example_scale_12 0), (ScaleTick 0, example_tick 0 2),
        (ScaleTick 1, example_tick 5 2), (ScaleTick 2, example_tick 10 2)]"
  by (simp add: HorizontalAxis_baseTicks_def AbstractAxis_baseTicks_def example_services_12_def
      example_services_def example_axis_12_def example_scale_12_def example_spec_def
      AxisScale_clone_def Let_def)

theorem HorizontalAxis_baseTicks_endpoints_witness:
  "hd (baseTicks example_services Horizontal example_axis_log)
     = (StartTick, \<lparr>tm_value = 1, tm_priority = 2, tm_isFirstOrLastTick = True,
          tm_gridLineOnly = False, tm_faint = False\<rparr>)
   \<and> (EndTick, \<lparr>tm_value = 1000, tm_priority = 2, tm_isFirstOrLastTick = True,
          tm_gridLineOnly = False, tm_faint = False\<rparr>)
        \<in> set (baseTicks example_services Horizontal example_axis_log)
   \<and> EndTick \<notin> fst ` set (baseTicks example_services_12 Horizontal example_axis_12)"
proof -
  have whole: "isWhole (fst (spec_domain (scale_spec (ax_scale example_axis_log))))"
    "isWhole (snd (spec_domain (scale_spec (ax_scale example_axis_log))))"
    by (simp_all add: example_axis_log_def AxisScale_clone_def isWhole_def)
  have hide: "spec_hideFractionalTicks (scale_spec (ax_scale example_axis_log))"
    by (simp add: example_axis_log_def AxisScale_clone_def)
  have nohide: "\<not> spec_hideFractionalTicks (scale_spec (ax_scale example_axis_12))"
    by (simp add: example_axis_12_def example_scale_12_def example_spec_def AxisScale_clone_def)
  have tick: "endpointTick (ax_scale example_axis_log) v
      = \<lparr>tm_value = v, tm_priority = 2, tm_isFirstOrLastTick = True,
          tm_gridLineOnly = False, tm_faint = False\<rparr>" for v
    by (simp add: endpointTick_def startEndPrio_def example_axis_log_def AxisScale_clone_def)
  have dom: "spec_domain (scale_spec (ax_scale example_axis_log)) = (1, 1000)"
    by (simp add: example_axis_log_def AxisScale_clone_def)
  from HorizontalAxis_baseTicks_endpoints [of example_axis_log example_services]
    HorizontalAxis_baseTicks_endpoints [of example_axis_12 example_services_12]
    whole hide nohide
  show ?thesis by (simp add: tick dom)
qed

text \<open>
  The claim as first stated promises a candidate at the domain maximum on every axis with
  whole endpoints, and no two candidates of the same value. On the linear axis over
  \<open>[0, 12]\<close> without \<open>hideFractionalTicks\<close> the candidates are at 0, 0, 5 and 10: none
  at the maximum 12, and the synthetic start tick beside the scale's own tick at 0.
\<close>

theorem HorizontalAxis_baseTicks_no_max_counterexample:
  "isWhole (fst (spec_domain (scale_spec (ax_scale example_axis_12))))
   \<and> isWhole (snd (spec_domain (scale_spec (ax_scale example_axis_12))))
   \<and> snd (spec_domain (scale_spec (ax_scale example_axis_12))) = 12
   \<and> 12 \<notin> set (map (\<lambda>t. tm_value (snd t)) (baseTicks example_services_12 Horizontal example_axis_12))
   \<and> map (\<lambda>t. tm_value (snd t)) (baseTicks example_services_12 Horizontal example_axis_12)
       = [0, 0, 5, 10]"
  unfolding example_baseTicks_12
  by (simp add: example_axis_12_def example_scale_12_def example_spec_def AxisScale_clone_def
      isWhole_def endpointTick_def example_tick_def)

section \<open>AxisBox: the two axes together (AxisBox.tsx)\<close>

record AxisBoxProps =
  props_bounds :: Bounds
  props_fontSize :: real
  props_xAxisSpec :: "real AxisSpec"
  props_yAxisSpec :: "real AxisSpec"

text \<open>
  The props and the observable fields of an \<^verbatim>\<open>AxisBox\<close>; \<^verbatim>\<open>animProgress\<close> and
  \<^verbatim>\<open>frameStart\<close> may be \<^verbatim>\<open>undefined\<close>.
\<close>

record AxisBox =
  props :: AxisBoxProps
  targetYDomain :: "real \<times> real"
  targetXDomain :: "real \<times> real"
  prevYDomain :: "real \<times> real"
  prevXDomain :: "real \<times> real"
  animProgress :: "real option"
  frameStart :: "real option"

text \<open>The constructor, with the field initialisers of the class.\<close>

definition AxisBox_new :: "AxisBoxProps \<Rightarrow> AxisBox" where
  "AxisBox_new p =
     \<lparr>props = p, targetYDomain = (1, 100), targetXDomain = (1, 100),
      prevYDomain = (1, 100), prevXDomain = (1, 100),
      animProgress = None, frameStart = None\<rparr>"

subsection \<open>The animated domains\<close>

text \<open>
  \<^verbatim>\<open>
  const progress = this.animProgress ? this.animProgress
      : this.props.yAxisSpec.scaleType === ScaleType.log ? 0.01 : 0
  return [prevMinY + (targetMinY - prevMinY) * progress,
          prevMaxY + (targetMaxY - prevMaxY) * this.animProgress]
  \<close>
  A progress of zero is falsy.
\<close>

definition easedProgress :: "real \<Rightarrow> ScaleType \<Rightarrow> real" where
  "easedProgress p scaleType = (if p \<noteq> 0 then p else if scaleType = Log then 0.01 else 0)"

definition currentYDomain :: "AxisBox \<Rightarrow> real \<times> real" where
  "currentYDomain box =
     (case animProgress box of
        None \<Rightarrow> spec_domain (props_yAxisSpec (props box))
      | Some p \<Rightarrow>
          (let (prevMinY, prevMaxY) = prevYDomain box;
               (targetMinY, targetMaxY) = targetYDomain box;
               progress = easedProgress p (spec_scaleType (props_yAxisSpec (props box)))
           in (prevMinY + (targetMinY - prevMinY) * progress,
               prevMaxY + (targetMaxY - prevMaxY) * p)))"

definition currentXDomain :: "AxisBox \<Rightarrow> real \<times> real" where
  "currentXDomain box =
     (case animProgress box of
        None \<Rightarrow> spec_domain (props_xAxisSpec (props box))
      | Some p \<Rightarrow>
          (let (prevMinX, prevMaxX) = prevXDomain box;
               (targetMinX, targetMaxX) = targetXDomain box;
               progress = easedProgress p (spec_scaleType (props_xAxisSpec (props box)))
           in (prevMinX + (targetMinX - prevMinX) * progress,
               prevMaxX + (targetMaxX - prevMaxX) * p)))"

text \<open>
  \<^verbatim>\<open>setupAnimation\<close>, and the body of the reaction it registers, which runs when one of
  the two domains of the props has changed and requests a frame.
\<close>

definition setupAnimation :: "AxisBox \<Rightarrow> AxisBox" where
  "setupAnimation box =
     box\<lparr>targetYDomain := spec_domain (props_yAxisSpec (props box)),
         targetXDomain := spec_domain (props_xAxisSpec (props box)),
         animProgress := Some 1\<rparr>"

definition domainReaction :: "AxisBox \<Rightarrow> AxisBox" where
  "domainReaction box =
     box\<lparr>prevXDomain := currentXDomain box,
         prevYDomain := currentYDomain box,
         targetYDomain := spec_domain (props_yAxisSpec (props box)),
         targetXDomain := spec_domain (props_xAxisSpec (props box)),
         animProgress := Some 0\<rparr>"

subsection \<open>One animation frame\<close>



subsection \<open>Sizing the two axes\<close>










subsection \<open>Properties of the animation\<close>

lemma currentYDomain_Some:
  "animProgress box = Some p \<Longrightarrow>
   currentYDomain box =
     (fst (prevYDomain box) + (fst (targetYDomain box) - fst (prevYDomain box))
        * easedProgress p (spec_scaleType (props_yAxisSpec (props box))),
      snd (prevYDomain box) + (snd (targetYDomain box) - snd (prevYDomain box)) * p)"
  by (simp add: currentYDomain_def Let_def split_beta)

lemma currentXDomain_Some:
  "animProgress box = Some p \<Longrightarrow>
   currentXDomain box =
     (fst (prevXDomain box) + (fst (targetXDomain box) - fst (prevXDomain box))
        * easedProgress p (spec_scaleType (props_xAxisSpec (props box))),
      snd (prevXDomain box) + (snd (targetXDomain box) - snd (prevXDomain box)) * p)"
  by (simp add: currentXDomain_def Let_def split_beta)

lemma lerp_hundredth_pos:
  fixes a b :: real
  assumes "0 \<le> a" and "0 < b"
  shows "0 < a + (b - a) * 0.01"
proof -
  have "a + (b - a) * 0.01 = 0.99 * a + 0.01 * b" by (simp add: field_simps)
  moreover have "0 \<le> 0.99 * a" using assms(1) by simp
  moreover have "0 < 0.01 * b" using assms(2) by simp
  ultimately show ?thesis by linarith
qed

text \<open>
  C6 (as amended). At \<open>animProgress = 0\<close> exactly, on a logarithmic axis the minimum of
  the current domain is the interpolation of the previous minimum toward the target
  minimum with the factor 0.01 substituted for 0, while the maximum is interpolated with
  the factor 0 itself and equals the previous maximum; so a previous minimum of zero (or
  any non-negative one) with a positive target minimum gives a positive minimum. On a
  linear axis the factor 0 is used and the current domain equals the previous domain.
\<close>

theorem currentDomain_at_progress_zero:
  assumes "animProgress box = Some 0"
  shows "(spec_scaleType (props_yAxisSpec (props box)) = Log \<longrightarrow>
            currentYDomain box =
              (fst (prevYDomain box) + (fst (targetYDomain box) - fst (prevYDomain box)) * 0.01,
               snd (prevYDomain box)))
       \<and> (spec_scaleType (props_xAxisSpec (props box)) = Log \<longrightarrow>
            currentXDomain box =
              (fst (prevXDomain box) + (fst (targetXDomain box) - fst (prevXDomain box)) * 0.01,
               snd (prevXDomain box)))
       \<and> (spec_scaleType (props_yAxisSpec (props box)) = Linear \<longrightarrow>
            currentYDomain box = prevYDomain box)
       \<and> (spec_scaleType (props_xAxisSpec (props box)) = Linear \<longrightarrow>
            currentXDomain box = prevXDomain box)
       \<and> (spec_scaleType (props_yAxisSpec (props box)) = Log \<and> 0 \<le> fst (prevYDomain box)
            \<and> 0 < fst (targetYDomain box) \<longrightarrow> 0 < fst (currentYDomain box))
       \<and> (spec_scaleType (props_xAxisSpec (props box)) = Log \<and> 0 \<le> fst (prevXDomain box)
            \<and> 0 < fst (targetXDomain box) \<longrightarrow> 0 < fst (currentXDomain box))"
proof -
  note y = currentYDomain_Some [OF assms] and x = currentXDomain_Some [OF assms]
  have ylog: "currentYDomain box =
      (fst (prevYDomain box) + (fst (targetYDomain box) - fst (prevYDomain box)) * 0.01,
       snd (prevYDomain box))"
    if "spec_scaleType (props_yAxisSpec (props box)) = Log"
    using that by (simp add: y easedProgress_def)
  have xlog: "currentXDomain box =
      (fst (prevXDomain box) + (fst (targetXDomain box) - fst (prevXDomain box)) * 0.01,
       snd (prevXDomain box))"
    if "spec_scaleType (props_xAxisSpec (props box)) = Log"
    using that by (simp add: x easedProgress_def)
  have ylin: "currentYDomain box = prevYDomain box"
    if "spec_scaleType (props_yAxisSpec (props box)) = Linear"
    using that by (simp add: y easedProgress_def)
  have xlin: "currentXDomain box = prevXDomain box"
    if "spec_scaleType (props_xAxisSpec (props box)) = Linear"
    using that by (simp add: x easedProgress_def)
  have ypos: "0 < fst (currentYDomain box)"
    if "spec_scaleType (props_yAxisSpec (props box)) = Log \<and> 0 \<le> fst (prevYDomain box)
        \<and> 0 < fst (targetYDomain box)"
    using that ylog lerp_hundredth_pos [of "fst (prevYDomain box)" "fst (targetYDomain box)"]
    by simp
  have xpos: "0 < fst (currentXDomain box)"
    if "spec_scaleType (props_xAxisSpec (props box)) = Log \<and> 0 \<le> fst (prevXDomain box)
        \<and> 0 < fst (targetXDomain box)"
    using that xlog lerp_hundredth_pos [of "fst (prevXDomain box)" "fst (targetXDomain box)"]
    by simp
  from ylog xlog ylin xlin ypos xpos show ?thesis by blast
qed

text \<open>An axis box in mid-animation, for a given scale type of both axes.\<close>

definition example_box ::
  "ScaleType \<Rightarrow> real \<times> real \<Rightarrow> real \<times> real \<Rightarrow> real option \<Rightarrow> real option \<Rightarrow> AxisBox" where
  "example_box scaleType prev target progress start =
     \<lparr>props = \<lparr>props_bounds = \<lparr>b_x = 0, b_y = 0, b_width = 640, b_height = 480\<rparr>,
               props_fontSize = 16,
               props_xAxisSpec = example_spec\<lparr>spec_scaleType := scaleType, spec_domain := target\<rparr>,
               props_yAxisSpec = example_spec\<lparr>spec_scaleType := scaleType, spec_domain := target\<rparr>\<rparr>,
      targetYDomain = target, targetXDomain = target,
      prevYDomain = prev, prevXDomain = prev,
      animProgress = progress, frameStart = start\<rparr>"

theorem currentDomain_at_progress_zero_witness:
  "currentYDomain (example_box Log (0, 100) (1, 500) (Some 0) None) = (1 / 100, 100)
   \<and> 0 < fst (currentYDomain (example_box Log (0, 100) (1, 500) (Some 0) None))
   \<and> currentXDomain (example_box Linear (0, 100) (1, 500) (Some 0) None) = (0, 100)"
  using currentDomain_at_progress_zero [of "example_box Log (0, 100) (1, 500) (Some 0) None"]
    currentDomain_at_progress_zero [of "example_box Linear (0, 100) (1, 500) (Some 0) None"]
  by (simp add: example_box_def)

text \<open>
  The claim as first stated applies the factor 0.01 to both components. A log axis going
  from \<open>[0, 100]\<close> to \<open>[1, 500]\<close> renders \<open>[0.01, 100]\<close> at progress 0, not
  \<open>[0.01, 104]\<close>; and a target minimum of zero still gives a minimum of exactly zero.
\<close>

theorem currentDomain_max_not_eased_counterexample:
  "currentYDomain (example_box Log (0, 100) (1, 500) (Some 0) None)
     \<noteq> (0 + (1 - 0) * 0.01, 100 + (500 - 100) * 0.01)
   \<and> snd (currentYDomain (example_box Log (0, 100) (1, 500) (Some 0) None)) = 100
   \<and> fst (currentYDomain (example_box Log (0, 100) (0, 500) (Some 0) None)) = 0"
  by (simp add: currentYDomain_def example_box_def easedProgress_def)




subsection \<open>Properties of the sizing\<close>






end
